theory Spec2Isabelle
  imports Complex_Main
begin

section \<open>Scene model\<close>

text \<open>
  The editor of \<open>src/index.tsx\<close> keeps its scene in React state: selection regions,
  the replacement-value map, stickers and custom texts. JavaScript numbers are modelled
  as \<open>real\<close> (coordinates, sizes, angles) or \<open>int\<close> (identities, list indices, colour
  channels). The rounding of IEEE doubles is modelled where the colour analyzer
  multiplies, adds and divides (the font size and the luminance); the geometry of the
  hit test, of the pointer and of the export is over the reals. An optional field
  (\<open>f?: T\<close>) is an \<open>option\<close>, and a JavaScript truthiness test on it is written out.
\<close>

datatype SelectionType = Text | ImageAI | ImageReplace

datatype FontWeight = Normal | Bold

datatype TextAlign = AlignLeft | AlignCenter | AlignRight

record SelectionArea =
  sel_id :: int
  sel_x :: real
  sel_y :: real
  sel_w :: real
  sel_h :: real
  sel_type :: SelectionType
  replacementImage :: "string option"
  imageRotation :: "real option"
  imageFlipX :: "bool option"
  imageFlipY :: "bool option"
  textColor :: "string option"
  textBgColor :: "string option"
  fontSize :: "real option"
  fontWeight :: "FontWeight option"
  textAlign :: "TextAlign option"
  fontFamily :: "string option"
  textRotation :: "real option"
  autoFitWidth :: "bool option"

record Sticker =
  stk_id :: int
  stk_src :: string
  stk_x :: real
  stk_y :: real
  stk_w :: real
  stk_h :: real
  stk_rotation :: real
  stk_flipX :: bool
  stk_opacity :: real
  stk_scale :: real

record TextSegment =
  seg_text :: string
  seg_color :: string
  seg_newLine :: "bool option"

record CustomText =
  txt_id :: int
  txt_segments :: "TextSegment list"
  txt_x :: real
  txt_y :: real
  txt_fontSize :: real
  txt_scale :: real
  txt_opacity :: real
  txt_fontWeight :: FontWeight
  txt_rotation :: real
  txt_fontFamily :: "string option"

record HistoryState =
  hs_selections :: "SelectionArea list"
  hs_replacements :: "int \<rightharpoonup> string"
  hs_stickers :: "Sticker list"
  hs_customTexts :: "CustomText list"

text \<open>
  The state of the \<open>App\<close> component that the modelled handlers read or write: the
  \<open>useState\<close> cells and the \<open>useRef\<close> cells \<open>isDrawing\<close>, \<open>isMoving\<close>, \<open>startPos\<close>.
  Each handler is a function from the state its render closed over to the state after
  its updates have been applied; handlers run one at a time.
\<close>

record app_state =
  selections :: "SelectionArea list"
  replacements :: "int \<rightharpoonup> string"
  stickers :: "Sticker list"
  customTexts :: "CustomText list"
  history :: "HistoryState list"
  historyIndex :: int
  drawMode :: SelectionType
  autoAnalyzeEnabled :: bool
  isDrawing :: bool
  isMoving :: bool
  startPos :: "real \<times> real"

definition MAX_SELECTIONS :: int where
  "MAX_SELECTIONS = 10"

section \<open>History manager\<close>

text \<open>
  \<open>Array.prototype.slice(0, e)\<close>: a negative end counts from the end of the array, and
  both cases are clamped to the array.
\<close>

definition js_slice0 :: "'a list \<Rightarrow> int \<Rightarrow> 'a list" where
  "js_slice0 xs e =
     (let n = int (length xs);
          k = (if e < 0 then max (n + e) 0 else min e n)
      in take (nat k) xs)"

text \<open>\<open>xs[i]\<close> is \<open>undefined\<close> outside the array.\<close>

definition js_index :: "'a list \<Rightarrow> int \<Rightarrow> 'a option" where
  "js_index xs i = (if 0 \<le> i \<and> i < int (length xs) then Some (xs ! nat i) else None)"

datatype js_error = TypeError

text \<open>
  \<open>addToHistory\<close> (lines 955-966) snapshots the scene of the closure, cuts the history
  after the cursor, pushes the snapshot and moves the cursor to the last index.
\<close>

definition addToHistory :: "app_state \<Rightarrow> app_state" where
  "addToHistory st =
     (let newState = \<lparr> hs_selections = selections st,
                       hs_replacements = replacements st,
                       hs_stickers = stickers st,
                       hs_customTexts = customTexts st \<rparr>;
          newHistory = js_slice0 (history st) (historyIndex st + 1) @ [newState]
      in st\<lparr> history := newHistory, historyIndex := int (length newHistory) - 1 \<rparr>)"

text \<open>
  \<open>undo\<close> (lines 968-978) and \<open>redo\<close> (lines 980-990). Reading a field of
  \<open>history[newIndex]\<close> when that is \<open>undefined\<close> throws a \<open>TypeError\<close>.
\<close>

definition restoreState :: "HistoryState \<Rightarrow> int \<Rightarrow> app_state \<Rightarrow> app_state" where
  "restoreState state newIndex st =
     st\<lparr> selections := hs_selections state,
         replacements := hs_replacements state,
         stickers := hs_stickers state,
         customTexts := hs_customTexts state,
         historyIndex := newIndex \<rparr>"

definition undo :: "app_state \<Rightarrow> js_error + app_state" where
  "undo st =
     (if historyIndex st > 0 then
        (let newIndex = historyIndex st - 1 in
         case js_index (history st) newIndex of
           None \<Rightarrow> Inl TypeError
         | Some state \<Rightarrow> Inr (restoreState state newIndex st))
      else Inr st)"

definition redo :: "app_state \<Rightarrow> js_error + app_state" where
  "redo st =
     (if historyIndex st < int (length (history st)) - 1 then
        (let newIndex = historyIndex st + 1 in
         case js_index (history st) newIndex of
           None \<Rightarrow> Inl TypeError
         | Some state \<Rightarrow> Inr (restoreState state newIndex st))
      else Inr st)"

text \<open>
  The scene as a snapshot, and the state with its scene replaced (what the editing
  handlers do between two history operations).
\<close>

definition scene_of :: "app_state \<Rightarrow> HistoryState" where
  "scene_of st = \<lparr> hs_selections = selections st, hs_replacements = replacements st,
                   hs_stickers = stickers st, hs_customTexts = customTexts st \<rparr>"

definition with_scene :: "HistoryState \<Rightarrow> app_state \<Rightarrow> app_state" where
  "with_scene s st = st\<lparr> selections := hs_selections s, replacements := hs_replacements s,
                        stickers := hs_stickers s, customTexts := hs_customTexts s \<rparr>"

text \<open>
  A run of history operations. \<open>Commit s\<close> is \<open>addToHistory\<close> called by a handler whose
  closure holds the scene \<open>s\<close>; a thrown error ends the run.
\<close>

datatype history_op = Commit HistoryState | Undo | Redo

fun history_step :: "history_op \<Rightarrow> app_state \<Rightarrow> js_error + app_state" where
  "history_step (Commit s) st = Inr (addToHistory (with_scene s st))"
| "history_step Undo st = undo st"
| "history_step Redo st = redo st"

fun history_run :: "history_op list \<Rightarrow> app_state \<Rightarrow> js_error + app_state" where
  "history_run [] st = Inr st"
| "history_run (opn # ops) st =
     (case history_step opn st of Inl e \<Rightarrow> Inl e | Inr st' \<Rightarrow> history_run ops st')"

text \<open>The history cells after a source raster has been loaded (lines 383-384, 418-419).\<close>

definition history_empty :: "app_state \<Rightarrow> bool" where
  "history_empty st \<longleftrightarrow> history st = [] \<and> historyIndex st = -1"

definition cursor_ok :: "app_state \<Rightarrow> bool" where
  "cursor_ok st \<longleftrightarrow>
     (if history st = [] then historyIndex st = -1
      else 0 \<le> historyIndex st \<and> historyIndex st < int (length (history st)))"

section \<open>Colour utilities and the colour analyzer\<close>

text \<open>
  A pixel is its red, green and blue bytes. The source raster (the canvas behind
  \<open>originalCanvasRef\<close>, and the \<open>ImageData\<close> read from it) has integer dimensions;
  \<open>getImageData(sx, sy, 1, 1)\<close> outside the canvas yields transparent black.
\<close>

type_synonym rgb = "int \<times> int \<times> int"

record raster =
  r_width :: int
  r_height :: int
  r_pixel :: "int \<Rightarrow> int \<Rightarrow> rgb"

definition getImageData :: "raster \<Rightarrow> int \<Rightarrow> int \<Rightarrow> rgb" where
  "getImageData ctx sx sy =
     (if 0 \<le> sx \<and> sx < r_width ctx \<and> 0 \<le> sy \<and> sy < r_height ctx
      then r_pixel ctx sx sy else (0, 0, 0))"

text \<open>\<open>Math.round\<close> rounds halves up.\<close>

definition js_round :: "real \<Rightarrow> int" where
  "js_round v = \<lfloor>v + 1 / 2\<rfloor>"

text \<open>
  IEEE 754 binary64 arithmetic. A number is rounded to the nearest multiple of its unit
  in the last place, a tie going to the even multiple; the unit is \<open>2 ^ (e - 52)\<close> for a
  number in \<open>[2 ^ e, 2 ^ (e + 1))\<close>, and \<open>2 ^ -1074\<close> below \<open>2 ^ -1022\<close>. Results beyond the
  largest finite double do not arise in the analyzer and are not modelled. A decimal
  literal is the double nearest to it, and each operation rounds its exact result.
\<close>

definition pow2 :: "int \<Rightarrow> real" where
  "pow2 e = (if e \<ge> 0 then 2 ^ nat e else 1 / 2 ^ nat (- e))"

definition round_half_even :: "real \<Rightarrow> int" where
  "round_half_even q =
     (let f = \<lfloor>q\<rfloor>; d = q - real_of_int f
      in if d < 1 / 2 then f
         else if d > 1 / 2 then f + 1
         else if even f then f else f + 1)"

definition ulp_exponent :: "real \<Rightarrow> int" where
  "ulp_exponent x = max (- 1022) \<lfloor>log 2 \<bar>x\<bar>\<rfloor> - 52"

definition round_double :: "real \<Rightarrow> real" where
  "round_double x =
     (if x = 0 then 0
      else sgn x * real_of_int (round_half_even (\<bar>x\<bar> / pow2 (ulp_exponent x)))
                 * pow2 (ulp_exponent x))"

definition dbl_lit :: "real \<Rightarrow> real" where
  "dbl_lit d = round_double d"

definition dbl_mul :: "real \<Rightarrow> real \<Rightarrow> real" where
  "dbl_mul a b = round_double (a * b)"

definition dbl_add :: "real \<Rightarrow> real \<Rightarrow> real" where
  "dbl_add a b = round_double (a + b)"

definition dbl_div :: "real \<Rightarrow> real \<Rightarrow> real" where
  "dbl_div a b = round_double (a / b)"

definition hex_digit :: "int \<Rightarrow> char" where
  "hex_digit d = ''0123456789abcdef'' ! nat d"

text \<open>
  \<open>Math.min(255, Math.max(0, x)).toString(16).padStart(2, '0')\<close> on an integer \<open>x\<close>:
  the clamped value has one or two hexadecimal digits.
\<close>

definition hex2 :: "int \<Rightarrow> string" where
  "hex2 x = (let v = min 255 (max 0 x) in [hex_digit (v div 16), hex_digit (v mod 16)])"

definition rgbToHex :: "int \<Rightarrow> int \<Rightarrow> int \<Rightarrow> string" where
  "rgbToHex r g b = CHR ''#'' # concat (map hex2 [r, g, b])"

definition is_hex :: "char \<Rightarrow> bool" where
  "is_hex c \<longleftrightarrow> c \<in> set ''0123456789abcdefABCDEF''"

definition hex_val :: "char \<Rightarrow> int" where
  "hex_val c =
     (if c \<in> set ''0123456789'' then int (of_char c) - 48
      else if c \<in> set ''abcdef'' then int (of_char c) - 87
      else int (of_char c) - 55)"

text \<open>\<open>parseInt(s, 16)\<close> on a string of hexadecimal digits.\<close>

definition parseInt16 :: "string \<Rightarrow> int" where
  "parseInt16 s = foldl (\<lambda>acc c. 16 * acc + hex_val c) 0 s"

text \<open>
  \<open>hexToRgb\<close> (lines 91-98): the pattern \<open>/^#?([a-f\d]{2})([a-f\d]{2})([a-f\d]{2})$/i\<close>
  accepts an optional \<open>#\<close> followed by exactly six hexadecimal digits.
\<close>

definition hexToRgb :: "string \<Rightarrow> rgb option" where
  "hexToRgb hex =
     (let body = (case hex of [] \<Rightarrow> [] | c # cs \<Rightarrow> if c = CHR ''#'' then cs else hex)
      in if length body = 6 \<and> list_all is_hex body
         then Some (parseInt16 (take 2 body),
                    parseInt16 (take 2 (drop 2 body)),
                    parseInt16 (take 2 (drop 4 body)))
         else None)"

text \<open>
  \<open>getLuminance\<close> (lines 100-102): three products, two sums from left to right and a
  quotient, each in double arithmetic.
\<close>

definition getLuminance :: "int \<Rightarrow> int \<Rightarrow> int \<Rightarrow> real" where
  "getLuminance r g b =
     dbl_div (dbl_add (dbl_add (dbl_mul (dbl_lit 0.299) (real_of_int r))
                               (dbl_mul (dbl_lit 0.587) (real_of_int g)))
                      (dbl_mul (dbl_lit 0.114) (real_of_int b)))
             255"

text \<open>
  The average of the sampled channels, \<open>Math.round(samples.reduce(...) / samples.length)\<close>
  (lines 228-230 and 307-309).
\<close>

definition avg_channel :: "int list \<Rightarrow> int" where
  "avg_channel cs = js_round (real_of_int (sum_list cs) / real (length cs))"

definition average_color :: "rgb list \<Rightarrow> string" where
  "average_color samples =
     (if samples = [] then ''#ffffff''
      else rgbToHex (avg_channel (map fst samples))
                    (avg_channel (map (fst \<circ> snd) samples))
                    (avg_channel (map (snd \<circ> snd) samples)))"

text \<open>
  \<open>detectBackgroundColorFast\<close> (lines 203-233): the four corners inset by 2 and the four
  edge midpoints. The \<open>try\<close> around each read never fires on finite coordinates.
\<close>

definition detectBackgroundColorFast :: "raster \<Rightarrow> real \<Rightarrow> real \<Rightarrow> real \<Rightarrow> real \<Rightarrow> string" where
  "detectBackgroundColorFast ctx x y w h =
     (let points = [(x + 2, y + 2), (x + w - 2, y + 2), (x + 2, y + h - 2),
                    (x + w - 2, y + h - 2), (x + w / 2, y + 2), (x + w / 2, y + h - 2),
                    (x + 2, y + h / 2), (x + w - 2, y + h / 2)];
          samples = map (\<lambda>(px, py). getImageData ctx (js_round px) (js_round py)) points
      in average_color samples)"

text \<open>
  \<open>detectTextColorFast\<close> (lines 236-275): five samples on a circle around the centre,
  the one farthest from the background wins, unless none is farther than 100.
\<close>

definition text_sample_point :: "real \<Rightarrow> real \<Rightarrow> real \<Rightarrow> real \<Rightarrow> nat \<Rightarrow> int \<times> int" where
  "text_sample_point x y w h i =
     (let centerX = x + w / 2;
          centerY = y + h / 2;
          sampleRadius = min w h / 4;
          angle = (real i / 5) * pi * 2;
          px = centerX + cos angle * sampleRadius;
          py = centerY + sin angle * sampleRadius
      in (js_round px, js_round py))"

definition text_samples :: "raster \<Rightarrow> real \<Rightarrow> real \<Rightarrow> real \<Rightarrow> real \<Rightarrow> rgb list" where
  "text_samples ctx x y w h =
     map (\<lambda>i. case text_sample_point x y w h i of (sx, sy) \<Rightarrow> getImageData ctx sx sy) [0..<5]"

fun best_contrast :: "rgb \<Rightarrow> rgb list \<Rightarrow> int \<times> string \<Rightarrow> int \<times> string" where
  "best_contrast bgRgb [] acc = acc"
| "best_contrast (bgR, bgG, bgB) ((r, g, b) # samples) (maxDiff, bestColor) =
     (let diff = \<bar>r - bgR\<bar> + \<bar>g - bgG\<bar> + \<bar>b - bgB\<bar>
      in if diff > maxDiff
         then best_contrast (bgR, bgG, bgB) samples (diff, rgbToHex r g b)
         else best_contrast (bgR, bgG, bgB) samples (maxDiff, bestColor))"

definition detectTextColorFast :: "raster \<Rightarrow> real \<Rightarrow> real \<Rightarrow> real \<Rightarrow> real \<Rightarrow> string \<Rightarrow> string" where
  "detectTextColorFast ctx x y w h bgColor =
     (case hexToRgb bgColor of
        None \<Rightarrow> ''#000000''
      | Some (bgR, bgG, bgB) \<Rightarrow>
          (case best_contrast (bgR, bgG, bgB) (text_samples ctx x y w h) (0, ''#000000'') of
             (maxDiff, bestColor) \<Rightarrow>
               if maxDiff < 100
               then (if getLuminance bgR bgG bgB > 0.5 then ''#000000'' else ''#ffffff'')
               else bestColor))"

record analysis =
  a_bgColor :: string
  a_textColor :: string
  a_fontSize :: int

text \<open>
  \<open>analyzeTextAreaFast\<close> (lines 171-200). The first argument is the canvas behind
  \<open>originalCanvasRef\<close>, \<open>None\<close> while the ref is empty. The products by \<open>0.7\<close> are
  double products.
\<close>

definition analyzeTextAreaFast :: "raster option \<Rightarrow> real \<Rightarrow> real \<Rightarrow> real \<Rightarrow> real \<Rightarrow> analysis" where
  "analyzeTextAreaFast canvas x y w h =
     (case canvas of
        None \<Rightarrow> \<lparr> a_bgColor = ''#ffffff'', a_textColor = ''#000000'',
                  a_fontSize = js_round (dbl_mul h (dbl_lit 0.7)) \<rparr>
      | Some ctx \<Rightarrow>
          (let canvasWidth = r_width ctx;
               canvasHeight = r_height ctx;
               safeX = max 0 (min (js_round x) (canvasWidth - 1));
               safeY = max 0 (min (js_round y) (canvasHeight - 1));
               safeW = min (js_round w) (canvasWidth - safeX);
               safeH = min (js_round h) (canvasHeight - safeY)
           in if safeW \<le> 0 \<or> safeH \<le> 0
              then \<lparr> a_bgColor = ''#ffffff'', a_textColor = ''#000000'',
                     a_fontSize = js_round (dbl_mul h (dbl_lit 0.7)) \<rparr>
              else
                (let bgColor = detectBackgroundColorFast ctx (real_of_int safeX) (real_of_int safeY)
                                 (real_of_int safeW) (real_of_int safeH);
                     textColor = detectTextColorFast ctx (real_of_int safeX) (real_of_int safeY)
                                   (real_of_int safeW) (real_of_int safeH) bgColor;
                     fontSize = js_round (dbl_mul (real_of_int safeH) (dbl_lit 0.7))
                 in \<lparr> a_bgColor = bgColor, a_textColor = textColor,
                       a_fontSize = max 12 (min 200 fontSize) \<rparr>)))"

text \<open>
  \<open>detectSurroundingColor\<close> (lines 278-312): four points 10 outside the rectangle, each
  skipped when outside the canvas.
\<close>

definition detectSurroundingColor :: "raster option \<Rightarrow> real \<Rightarrow> real \<Rightarrow> real \<Rightarrow> real \<Rightarrow> string" where
  "detectSurroundingColor canvas x y w h =
     (case canvas of
        None \<Rightarrow> ''#ffffff''
      | Some ctx \<Rightarrow>
          (let margin = 10;
               points = [(x - margin, y + h / 2), (x + w + margin, y + h / 2),
                         (x + w / 2, y - margin), (x + w / 2, y + h + margin)];
               inside = filter (\<lambda>(px, py). px \<ge> 0 \<and> px < real_of_int (r_width ctx)
                                           \<and> py \<ge> 0 \<and> py < real_of_int (r_height ctx)) points;
               samples = map (\<lambda>(px, py). getImageData ctx (js_round px) (js_round py)) inside
           in average_color samples))"

text \<open>The clamp of the specification, \<open>clamp(v, lo, hi)\<close>.\<close>

definition clamp :: "int \<Rightarrow> int \<Rightarrow> int \<Rightarrow> int" where
  "clamp v lo hi = max lo (min hi v)"

text \<open>A rectangle lies inside the raster when all four of its edges do.\<close>

definition inside_raster :: "raster \<Rightarrow> real \<Rightarrow> real \<Rightarrow> real \<Rightarrow> real \<Rightarrow> bool" where
  "inside_raster ctx x y w h \<longleftrightarrow>
     0 \<le> x \<and> 0 \<le> y \<and> 0 < w \<and> 0 < h \<and>
     x + w \<le> real_of_int (r_width ctx) \<and> y + h \<le> real_of_int (r_height ctx)"

definition uniform_raster :: "int \<Rightarrow> int \<Rightarrow> rgb \<Rightarrow> raster" where
  "uniform_raster width height c = \<lparr> r_width = width, r_height = height, r_pixel = (\<lambda>i j. c) \<rparr>"

section \<open>Text layout\<close>

text \<open>
  A JavaScript string is the list of its code units. \<open>text.split('\n')\<close> always returns
  at least one piece; \<open>paragraph.split('')\<close> is the list of the paragraph's code units.
\<close>

definition newline :: char where
  "newline = CHR 0x0A"

fun split_newlines :: "string \<Rightarrow> string list" where
  "split_newlines [] = [[]]"
| "split_newlines (c # cs) =
     (if c = newline then [] # split_newlines cs
      else (case split_newlines cs of
              [] \<Rightarrow> [[c]]
            | p # ps \<Rightarrow> (c # p) # ps))"

text \<open>\<open>lines.join('\n')\<close>.\<close>

fun join_newlines :: "string list \<Rightarrow> string" where
  "join_newlines [] = []"
| "join_newlines [l] = l"
| "join_newlines (l # ls) = l @ newline # join_newlines ls"

text \<open>
  \<open>wrapTextWithNewlines\<close> (lines 444-474). The measurement \<open>ctx.measureText(s).width\<close>
  is the parameter \<open>measureText\<close>. The inner \<open>forEach\<close> carries the pushed lines and
  \<open>currentLine\<close>; the outer one carries \<open>allLines\<close>.
\<close>

fun wrap_chars :: "(string \<Rightarrow> real) \<Rightarrow> real \<Rightarrow> string \<Rightarrow> string list \<times> string \<Rightarrow> string list \<times> string" where
  "wrap_chars measureText maxWidth [] (allLines, currentLine) = (allLines, currentLine)"
| "wrap_chars measureText maxWidth (char # rest) (allLines, currentLine) =
     (let testLine = currentLine @ [char]
      in if measureText testLine > maxWidth \<and> currentLine \<noteq> []
         then wrap_chars measureText maxWidth rest (allLines @ [currentLine], [char])
         else wrap_chars measureText maxWidth rest (allLines, testLine))"

definition wrap_paragraph :: "(string \<Rightarrow> real) \<Rightarrow> real \<Rightarrow> string list \<Rightarrow> string \<Rightarrow> string list" where
  "wrap_paragraph measureText maxWidth allLines paragraph =
     (if paragraph = [] then allLines @ [[]]
      else (case wrap_chars measureText maxWidth paragraph (allLines, []) of
              (allLines', currentLine) \<Rightarrow>
                if currentLine \<noteq> [] then allLines' @ [currentLine] else allLines'))"

definition wrapTextWithNewlines :: "(string \<Rightarrow> real) \<Rightarrow> string \<Rightarrow> real \<Rightarrow> string list" where
  "wrapTextWithNewlines measureText text maxWidth =
     foldl (wrap_paragraph measureText maxWidth) [] (split_newlines text)"

definition wrapText :: "(string \<Rightarrow> real) \<Rightarrow> string \<Rightarrow> real \<Rightarrow> string list" where
  "wrapText measureText text maxWidth = wrapTextWithNewlines measureText text maxWidth"

text \<open>The text with its line breaks removed.\<close>

definition strip_newlines :: "string \<Rightarrow> string" where
  "strip_newlines text = filter (\<lambda>c. c \<noteq> newline) text"

text \<open>
  Every prefix of two or more code units of the line measures at most \<open>maxWidth\<close>: the
  widths the wrap loop looks at while the line is being built.
\<close>

definition prefixes_fit :: "(string \<Rightarrow> real) \<Rightarrow> real \<Rightarrow> string \<Rightarrow> bool" where
  "prefixes_fit measureText maxWidth line \<longleftrightarrow>
     list_all (\<lambda>n. measureText (take n line) \<le> maxWidth) [2..<Suc (length line)]"

text \<open>
  A measurement that is not monotone: the two-unit string \<open>ab\<close> is wider than anything
  else.
\<close>

definition kerned_measure :: "string \<Rightarrow> real" where
  "kerned_measure s = (if s = ''ab'' then 5 else 1)"

section \<open>Hit test of the selection regions\<close>

text \<open>
  The third pass of \<open>onMouseDown\<close> (lines 669-690). The pointer \<open>(x, y)\<close> is in canvas
  coordinates. A rotation is undone only for a \<open>text\<close> region whose \<open>textRotation\<close> is
  truthy.
\<close>

definition hit_rotation :: "SelectionArea \<Rightarrow> real" where
  "hit_rotation sel =
     (case textRotation sel of
        None \<Rightarrow> 0
      | Some r \<Rightarrow> if sel_type sel = Text \<and> r \<noteq> 0 then r else 0)"

definition selection_hit :: "real \<Rightarrow> real \<Rightarrow> SelectionArea \<Rightarrow> bool" where
  "selection_hit x y sel =
     (let centerX = sel_x sel + sel_w sel / 2;
          centerY = sel_y sel + sel_h sel / 2;
          dx = x - centerX;
          dy = y - centerY;
          rotation = hit_rotation sel;
          rad = (- rotation * pi) / 180;
          c = cos rad;
          s = sin rad;
          rx = dx * c - dy * s;
          ry = dx * s + dy * c
      in rx \<ge> - sel_w sel / 2 \<and> rx \<le> sel_w sel / 2 \<and> ry \<ge> - sel_h sel / 2 \<and> ry \<le> sel_h sel / 2)"

text \<open>The loop runs from the last region to the first and stops at the first hit.\<close>

definition clickedSelection :: "real \<Rightarrow> real \<Rightarrow> SelectionArea list \<Rightarrow> SelectionArea option" where
  "clickedSelection x y sels = find (selection_hit x y) (rev sels)"

section \<open>Creating a region on pointer-up\<close>

text \<open>The object literal of lines 797-810; the fields it leaves out are absent.\<close>

definition newSelection ::
  "int \<Rightarrow> real \<Rightarrow> real \<Rightarrow> real \<Rightarrow> real \<Rightarrow> SelectionType \<Rightarrow> string \<Rightarrow> string \<Rightarrow> real \<Rightarrow> SelectionArea" where
  "newSelection newId startX startY width height mode txtColor bgColor fontSz =
     \<lparr> sel_id = newId, sel_x = startX, sel_y = startY, sel_w = width, sel_h = height,
       sel_type = mode, replacementImage = None, imageRotation = None,
       imageFlipX = None, imageFlipY = None,
       textColor = Some txtColor, textBgColor = Some bgColor, fontSize = Some fontSz,
       fontWeight = Some Normal, textAlign = Some AlignCenter,
       fontFamily = Some ''Noto Sans KR'', textRotation = None, autoFitWidth = None \<rparr>"

text \<open>
  \<open>onMouseUp\<close> (lines 760-819). \<open>now\<close> is the value of \<open>Date.now()\<close>, \<open>canvas\<close> the
  canvas behind \<open>originalCanvasRef\<close>, and \<open>(x, y)\<close> the pointer in canvas coordinates
  (lines 767-771 compute it from the mouse event and the bounding rectangle of the live
  canvas). \<open>addToHistory\<close> reads the scene of the closure, so the pushed snapshot is the
  scene before the new region; \<open>redrawCanvas\<close> only paints the live canvas.
\<close>

definition onMouseUp :: "int \<Rightarrow> raster option \<Rightarrow> real \<times> real \<Rightarrow> app_state \<Rightarrow> app_state" where
  "onMouseUp now canvas p st =
     (if isMoving st then st\<lparr> isMoving := False \<rparr>
      else if isDrawing st then
        (let x = fst p; y = snd p;
             startX = min (fst (startPos st)) x;
             startY = min (snd (startPos st)) y;
             width = \<bar>x - fst (startPos st)\<bar>;
             height = \<bar>y - snd (startPos st)\<bar>;
             st' =
               (if width > 10 \<and> height > 10 \<and> int (length (selections st)) < MAX_SELECTIONS then
                  (let newId = now;
                       an = (if autoAnalyzeEnabled st \<and> drawMode st = Text
                             then analyzeTextAreaFast canvas startX startY width height
                             else \<lparr> a_bgColor =
                                      (if autoAnalyzeEnabled st \<and> drawMode st = ImageReplace
                                       then detectSurroundingColor canvas startX startY width height
                                       else ''#ffffff''),
                                    a_textColor = ''#000000'', a_fontSize = 32 \<rparr>);
                       sel = newSelection newId startX startY width height (drawMode st)
                               (a_textColor an) (a_bgColor an) (real_of_int (a_fontSize an))
                   in (addToHistory st)\<lparr> selections := selections st @ [sel] \<rparr>)
                else st)
         in st'\<lparr> isDrawing := False \<rparr>)
      else st)"

text \<open>A pointer-up that ends a drag which was drawing a new rectangle.\<close>

definition drawing_gesture :: "app_state \<Rightarrow> bool" where
  "drawing_gesture st \<longleftrightarrow> isDrawing st \<and> \<not> isMoving st"

definition drag_width :: "real \<times> real \<Rightarrow> app_state \<Rightarrow> real" where
  "drag_width p st = \<bar>fst p - fst (startPos st)\<bar>"

definition drag_height :: "real \<times> real \<Rightarrow> app_state \<Rightarrow> real" where
  "drag_height p st = \<bar>snd p - snd (startPos st)\<bar>"

definition admitted :: "real \<times> real \<Rightarrow> app_state \<Rightarrow> bool" where
  "admitted p st \<longleftrightarrow>
     drawing_gesture st \<and> drag_width p st > 10 \<and> drag_height p st > 10 \<and>
     int (length (selections st)) < 10"

text \<open>The application right after a raster has been loaded, in text mode.\<close>

definition fresh_state :: app_state where
  "fresh_state =
     \<lparr> selections = [], replacements = Map.empty, stickers = [], customTexts = [],
       history = [], historyIndex = -1, drawMode = Text, autoAnalyzeEnabled = True,
       isDrawing = False, isMoving = False, startPos = (0, 0) \<rparr>"

section \<open>Export\<close>

text \<open>
  \<open>handleRestore\<close> (lines 997-1191) paints on a fresh canvas. The canvas is modelled by
  what was put on it: the image data it was initialised with and the drawing calls made
  on its 2D context, in order. The browser turns these into pixels; two canvases with the
  same size, image data and calls hold the same pixels. A font is set from three values
  (weight, size in px, family), and an image is named by its \<open>src\<close>.
\<close>

datatype canvas_op =
    Save
  | Restore
  | Translate real real
  | Rotate real
  | Scale real real
  | SetFillStyle string
  | SetGlobalAlpha real
  | SetFont FontWeight real string
  | SetTextBaseline string
  | SetTextAlign TextAlign
  | FillRect real real real real
  | FillText string real real
  | DrawImage string real real real real

record canvas =
  cv_width :: int
  cv_height :: int
  cv_image :: raster
  cv_ops :: "canvas_op list"

definition draw :: "canvas_op list \<Rightarrow> canvas \<Rightarrow> canvas" where
  "draw ops cv = cv\<lparr> cv_ops := cv_ops cv @ ops \<rparr>"

text \<open>A decoded image element of the caches \<open>stickerImagesRef\<close> and \<open>replacementImagesRef\<close>.\<close>

record image_el =
  el_src :: string
  el_complete :: bool

text \<open>\<open>v || d\<close> on an optional string, an optional number and an optional flag.\<close>

definition str_or :: "string option \<Rightarrow> string \<Rightarrow> string" where
  "str_or v d = (case v of None \<Rightarrow> d | Some s \<Rightarrow> if s = [] then d else s)"

definition num_or :: "real option \<Rightarrow> real \<Rightarrow> real" where
  "num_or v d = (case v of None \<Rightarrow> d | Some n \<Rightarrow> if n = 0 then d else n)"

definition truthy_flag :: "bool option \<Rightarrow> bool" where
  "truthy_flag v = (case v of None \<Rightarrow> False | Some b \<Rightarrow> b)"

definition rotate_if :: "real option \<Rightarrow> canvas_op list" where
  "rotate_if v = (case v of None \<Rightarrow> [] | Some r \<Rightarrow> if r = 0 then [] else [Rotate ((r * pi) / 180)])"

text \<open>The font-dependent measurement \<open>ctx.measureText(s).width\<close>.\<close>

type_synonym measurer = "FontWeight \<Rightarrow> real \<Rightarrow> string \<Rightarrow> string \<Rightarrow> real"

text \<open>The text regions (lines 1014-1055).\<close>

fun fill_lines :: "string list \<Rightarrow> real \<Rightarrow> real \<Rightarrow> real \<Rightarrow> canvas_op list" where
  "fill_lines [] textX startY lineHeight = []"
| "fill_lines (line # rest) textX startY lineHeight =
     FillText line textX startY # fill_lines rest textX (startY + lineHeight) lineHeight"

definition restore_text :: "measurer \<Rightarrow> (int \<rightharpoonup> string) \<Rightarrow> SelectionArea \<Rightarrow> canvas_op list" where
  "restore_text measureText repl sel =
     (let newText = str_or (repl (sel_id sel)) [];
          centerX = sel_x sel + sel_w sel / 2;
          centerY = sel_y sel + sel_h sel / 2;
          weight = (case fontWeight sel of None \<Rightarrow> Normal | Some fw \<Rightarrow> fw);
          size = num_or (fontSize sel) 32;
          family = str_or (fontFamily sel) ''Noto Sans KR''
      in [Save, Translate centerX centerY] @ rotate_if (textRotation sel) @
         [SetFillStyle (str_or (textBgColor sel) ''#ffffff''),
          FillRect (- sel_w sel / 2) (- sel_h sel / 2) (sel_w sel) (sel_h sel)] @
         (if newText \<noteq> [] then
            [SetFillStyle (str_or (textColor sel) ''#000000''),
             SetFont weight size family,
             SetTextBaseline ''middle'',
             SetTextAlign (case textAlign sel of None \<Rightarrow> AlignCenter | Some a \<Rightarrow> a)] @
            (let lines = wrapText (measureText weight size family) newText (sel_w sel - 4);
                 lineHeight = size * 1.2;
                 totalHeight = real (length lines) * lineHeight;
                 startY = - totalHeight / 2 + lineHeight / 2;
                 textX = (if textAlign sel = Some AlignLeft then - sel_w sel / 2 + 2
                          else if textAlign sel = Some AlignRight then sel_w sel / 2 - 2
                          else 0)
             in fill_lines lines textX startY lineHeight)
          else []) @
         [Restore])"

text \<open>
  The generation collaborator. A request carries the key, the current composite
  (\<open>canvas.toDataURL\<close>), and the rectangle and prompt that the instruction text is built
  from. The call throws, or answers with \<open>response.candidates?.[0]?.content?.parts\<close>: no
  parts at all, or a list of parts, each with an optional \<open>inlineData\<close> of a mime type and
  data.
\<close>

record gen_request =
  req_apiKey :: string
  req_image :: canvas
  req_x :: real
  req_y :: real
  req_w :: real
  req_h :: real
  req_prompt :: string

datatype gen_outcome = GenThrows | GenParts "(string \<times> string) option list option"

text \<open>\<open>window.aistudio?.getSelectedApiKey\<close>, when present, throws or answers with a key or nothing.\<close>

datatype key_lookup = KeyThrows | KeyValue "string option"

text \<open>
  What the AI loop reads besides the scene and the canvas: the key typed by the user,
  the key in local storage, the host's key lookup, the collaborator, and whether the
  browser fires \<open>onload\<close> for an image \<open>src\<close>.
\<close>

record ai_env =
  manualKey :: string
  storedKey :: "string option"
  aistudio :: "key_lookup option"
  generateContent :: "gen_request \<Rightarrow> gen_outcome"
  image_loads :: "string \<Rightarrow> bool"

definition falsy_key :: "string option \<Rightarrow> bool" where
  "falsy_key k = (case k of None \<Rightarrow> True | Some s \<Rightarrow> s = [])"

text \<open>Lines 1063-1066; \<open>Inl\<close> is the throw of the awaited lookup.\<close>

definition resolve_key :: "ai_env \<Rightarrow> unit + string option" where
  "resolve_key env =
     (let apiKey = (if manualKey env \<noteq> [] then Some (manualKey env) else storedKey env)
      in if falsy_key apiKey then
           (case aistudio env of
              None \<Rightarrow> Inr apiKey
            | Some KeyThrows \<Rightarrow> Inl ()
            | Some (KeyValue k) \<Rightarrow> Inr k)
         else Inr apiKey)"

text \<open>The first part whose \<open>inlineData?.data\<close> is truthy (lines 1099-1111).\<close>

definition has_data :: "(string \<times> string) option \<Rightarrow> bool" where
  "has_data part = (case part of None \<Rightarrow> False | Some (mimeType, d) \<Rightarrow> d \<noteq> [])"

text \<open>
  One iteration of the AI loop (lines 1057-1116). \<open>None\<close>: the awaited promise never
  resolves, because the image never fires \<open>onload\<close>. Every other path, the caught throw
  included, goes on to the next region with the canvas it has.
\<close>

definition restore_ai :: "ai_env \<Rightarrow> (int \<rightharpoonup> string) \<Rightarrow> SelectionArea \<Rightarrow> canvas \<Rightarrow> canvas option" where
  "restore_ai env repl sel cv =
     (let prompt = str_or (repl (sel_id sel)) []
      in if prompt = [] then Some cv
         else
           (case resolve_key env of
              Inl _ \<Rightarrow> Some cv
            | Inr apiKey \<Rightarrow>
                (case apiKey of
                   None \<Rightarrow> Some cv
                 | Some k \<Rightarrow>
                     if k = [] then Some cv
                     else
                       (case generateContent env
                               \<lparr> req_apiKey = k, req_image = cv,
                                 req_x = sel_x sel, req_y = sel_y sel,
                                 req_w = sel_w sel, req_h = sel_h sel,
                                 req_prompt = prompt \<rparr> of
                          GenThrows \<Rightarrow> Some cv
                        | GenParts None \<Rightarrow> Some cv
                        | GenParts (Some parts) \<Rightarrow>
                            (case find has_data parts of
                               None \<Rightarrow> Some cv
                             | Some None \<Rightarrow> Some cv
                             | Some (Some (mimeType, d)) \<Rightarrow>
                                 (let src = ''data:'' @ mimeType @ '';base64,'' @ d
                                  in if image_loads env src
                                     then Some (draw [DrawImage src (sel_x sel) (sel_y sel)
                                                        (sel_w sel) (sel_h sel)] cv)
                                     else None))))))"

fun restore_ai_all :: "ai_env \<Rightarrow> (int \<rightharpoonup> string) \<Rightarrow> SelectionArea list \<Rightarrow> canvas \<Rightarrow> canvas option" where
  "restore_ai_all env repl [] cv = Some cv"
| "restore_ai_all env repl (sel # rest) cv =
     (case restore_ai env repl sel cv of
        None \<Rightarrow> None
      | Some cv' \<Rightarrow> restore_ai_all env repl rest cv')"

text \<open>The image-replace regions (lines 1118-1136).\<close>

definition restore_replace :: "(int \<rightharpoonup> image_el) \<Rightarrow> SelectionArea \<Rightarrow> canvas_op list" where
  "restore_replace replacementImages sel =
     (if str_or (replacementImage sel) [] = [] then []
      else
        [SetFillStyle (str_or (textBgColor sel) ''#ffffff''),
         FillRect (sel_x sel) (sel_y sel) (sel_w sel) (sel_h sel)] @
        (case replacementImages (sel_id sel) of
           None \<Rightarrow> []
         | Some img \<Rightarrow>
             if el_complete img then
               [Save, Translate (sel_x sel + sel_w sel / 2) (sel_y sel + sel_h sel / 2)] @
               rotate_if (imageRotation sel) @
               [Scale (if truthy_flag (imageFlipX sel) then -1 else 1)
                      (if truthy_flag (imageFlipY sel) then -1 else 1),
                DrawImage (el_src img) (- sel_w sel / 2) (- sel_h sel / 2) (sel_w sel) (sel_h sel),
                Restore]
             else []))"

text \<open>The stickers (lines 1138-1150).\<close>

definition restore_sticker :: "(int \<rightharpoonup> image_el) \<Rightarrow> Sticker \<Rightarrow> canvas_op list" where
  "restore_sticker stickerImages stk =
     (case stickerImages (stk_id stk) of
        None \<Rightarrow> []
      | Some img \<Rightarrow>
          if \<not> el_complete img then []
          else
            [Save, SetGlobalAlpha (stk_opacity stk), Translate (stk_x stk) (stk_y stk),
             Rotate ((stk_rotation stk * pi) / 180),
             Scale ((if stk_flipX stk then -1 else 1) * stk_scale stk) (stk_scale stk),
             DrawImage (el_src img) (- stk_w stk / 2) (- stk_h stk / 2) (stk_w stk) (stk_h stk),
             Restore])"

text \<open>The custom texts (lines 1152-1174); the segment loop carries \<open>currentX\<close> and \<open>currentY\<close>.\<close>

fun fill_segments :: "(string \<Rightarrow> real) \<Rightarrow> real \<Rightarrow> TextSegment list \<Rightarrow> real \<Rightarrow> real \<Rightarrow> canvas_op list" where
  "fill_segments width lineHeight [] currentX currentY = []"
| "fill_segments width lineHeight (seg # rest) currentX currentY =
     (let cx = (if truthy_flag (seg_newLine seg) then 0 else currentX);
          cy = (if truthy_flag (seg_newLine seg) then currentY + lineHeight else currentY)
      in [SetFillStyle (seg_color seg), FillText (seg_text seg) cx cy] @
         fill_segments width lineHeight rest (cx + width (seg_text seg)) cy)"

definition restore_customText :: "measurer \<Rightarrow> CustomText \<Rightarrow> canvas_op list" where
  "restore_customText measureText txt =
     (let size = txt_fontSize txt * txt_scale txt;
          family = str_or (txt_fontFamily txt) ''Noto Sans KR'';
          lineHeight = txt_fontSize txt * txt_scale txt * 1.2
      in [Save, SetGlobalAlpha (txt_opacity txt), Translate (txt_x txt) (txt_y txt),
          Rotate ((txt_rotation txt * pi) / 180),
          SetFont (txt_fontWeight txt) size family] @
         fill_segments (measureText (txt_fontWeight txt) size family) lineHeight
           (txt_segments txt) 0 0 @
         [Restore])"

text \<open>
  What the three loops after the AI loop paint, in their order: image-replace regions,
  stickers, custom texts.
\<close>

definition restore_overlays ::
  "measurer \<Rightarrow> (int \<rightharpoonup> image_el) \<Rightarrow> (int \<rightharpoonup> image_el) \<Rightarrow> HistoryState \<Rightarrow> canvas_op list" where
  "restore_overlays measureText replacementImages stickerImages scene =
     concat (map (restore_replace replacementImages)
                 (filter (\<lambda>s. sel_type s = ImageReplace) (hs_selections scene))) @
     concat (map (restore_sticker stickerImages) (hs_stickers scene)) @
     concat (map (restore_customText measureText) (hs_customTexts scene))"

text \<open>
  The outcome of an export: the guard of line 998 returned at once, or \<open>setResultImage\<close>
  received the finished canvas, or the routine is suspended for ever in the AI loop.
\<close>

datatype export_result = NotStarted | Exported canvas | NeverSettles

text \<open>
  \<open>handleRestore\<close>. \<open>canvasRef\<close> is the size of the live canvas (\<open>None\<close> while the ref is
  empty), \<open>originalImageData\<close> the pristine raster; the scene is the snapshot of
  selections, replacement values, stickers and custom texts.
\<close>

definition handleRestore ::
  "measurer \<Rightarrow> ai_env \<Rightarrow> (int \<times> int) option \<Rightarrow> raster option \<Rightarrow>
   (int \<rightharpoonup> image_el) \<Rightarrow> (int \<rightharpoonup> image_el) \<Rightarrow> HistoryState \<Rightarrow> export_result" where
  "handleRestore measureText env canvasRef originalImageData replacementImages stickerImages scene =
     (case canvasRef of
        None \<Rightarrow> NotStarted
      | Some (width, height) \<Rightarrow>
          (case originalImageData of
             None \<Rightarrow> NotStarted
           | Some imageData \<Rightarrow>
               if hs_selections scene = [] then NotStarted
               else
                 (let ctx0 = \<lparr> cv_width = width, cv_height = height,
                               cv_image = imageData, cv_ops = [] \<rparr>;
                      textSelections = filter (\<lambda>s. sel_type s = Text) (hs_selections scene);
                      imageAISelections = filter (\<lambda>s. sel_type s = ImageAI) (hs_selections scene);
                      ctx1 = draw (concat (map (restore_text measureText (hs_replacements scene))
                                               textSelections)) ctx0
                  in case restore_ai_all env (hs_replacements scene) imageAISelections ctx1 of
                       None \<Rightarrow> NeverSettles
                     | Some ctx2 \<Rightarrow>
                         Exported (draw (restore_overlays measureText replacementImages
                                           stickerImages scene) ctx2))))"

section \<open>Predicates and sample inputs used by the theorems\<close>

text \<open>Every line measures at most \<open>maxWidth\<close>.\<close>

definition lines_fit :: "(string \<Rightarrow> real) \<Rightarrow> real \<Rightarrow> string list \<Rightarrow> bool" where
  "lines_fit measureText maxWidth lines \<longleftrightarrow> list_all (\<lambda>l. measureText l \<le> maxWidth) lines"

text \<open>A line that the wrap loop leaves whole: its prefixes fit and it holds no line break.\<close>

definition good_line :: "(string \<Rightarrow> real) \<Rightarrow> real \<Rightarrow> string \<Rightarrow> bool" where
  "good_line measureText maxWidth l \<longleftrightarrow> prefixes_fit measureText maxWidth l \<and> newline \<notin> set l"

definition two_lines :: string where
  "two_lines = ''ab'' @ newline # ''cd''"

text \<open>
  The height the analyzer works with (lines 182-184): the rounded height, cut to the rows
  from the clamped, rounded top edge to the bottom of the raster.
\<close>

definition safe_height :: "raster \<Rightarrow> real \<Rightarrow> real \<Rightarrow> int" where
  "safe_height ctx y h =
     min (js_round h) (r_height ctx - max 0 (min (js_round y) (r_height ctx - 1)))"

text \<open>The width it works with, likewise.\<close>

definition safe_width :: "raster \<Rightarrow> real \<Rightarrow> real \<Rightarrow> int" where
  "safe_width ctx x w =
     min (js_round w) (r_width ctx - max 0 (min (js_round x) (r_width ctx - 1)))"

definition white_raster :: raster where
  "white_raster = uniform_raster 100 100 (255, 255, 255)"

definition purple_raster :: raster where
  "purple_raster = uniform_raster 100 100 (218, 58, 248)"

text \<open>Every sample is the colour \<open>c\<close>.\<close>

definition samples_all :: "rgb \<Rightarrow> rgb list \<Rightarrow> bool" where
  "samples_all c samples \<longleftrightarrow> list_all (\<lambda>s. s = c) samples"

text \<open>
  The computed value \<open>v\<close> is the exact value \<open>V\<close> up to \<open>n\<close> roundings, each with a
  relative error of at most \<open>2 ^ -53\<close>.
\<close>

definition within_ulps :: "nat \<Rightarrow> real \<Rightarrow> real \<Rightarrow> bool" where
  "within_ulps n v V \<longleftrightarrow>
     0 \<le> V \<and> V * (1 - 1 / 2 ^ 53) ^ n \<le> v \<and> v \<le> V * (1 + 1 / 2 ^ 53) ^ n"

text \<open>A scene holding one text region with identity \<open>n\<close>, and a history of three such scenes.\<close>

definition example_scene :: "int \<Rightarrow> HistoryState" where
  "example_scene n =
     \<lparr> hs_selections = [newSelection n 0 0 20 20 Text ''#000000'' ''#ffffff'' 32],
       hs_replacements = Map.empty, hs_stickers = [], hs_customTexts = [] \<rparr>"

definition abc_state :: app_state where
  "abc_state = fresh_state\<lparr> history := [example_scene 1, example_scene 2, example_scene 3],
                            historyIndex := 2 \<rparr>"

text \<open>A drag in progress that started at \<open>(10, 10)\<close>, with no region and with ten regions.\<close>

definition drawing_state :: app_state where
  "drawing_state = fresh_state\<lparr> isDrawing := True, startPos := (10, 10) \<rparr>"

definition full_state :: app_state where
  "full_state =
     drawing_state\<lparr> selections :=
        map (\<lambda>i. newSelection (int i) 0 0 20 20 Text ''#000000'' ''#ffffff'' 32) [0..<10] \<rparr>"

text \<open>A text region of 100 by 40 at \<open>(10, 20)\<close>, turned by 37 degrees.\<close>

definition tilted_region :: SelectionArea where
  "tilted_region =
     (newSelection 1 10 20 100 40 Text ''#000000'' ''#ffffff'' 28)\<lparr> textRotation := Some 37 \<rparr>"

text \<open>No ai-image region of the scene has a prompt: the AI loop skips every region.\<close>

definition no_ai_prompts :: "HistoryState \<Rightarrow> bool" where
  "no_ai_prompts scene \<longleftrightarrow>
     list_all (\<lambda>s. str_or (hs_replacements scene (sel_id s)) [] = [])
              (filter (\<lambda>s. sel_type s = ImageAI) (hs_selections scene))"




text \<open>A measurement of 10 per code unit, and empty and one-entry image caches.\<close>

definition plain_measure :: measurer where
  "plain_measure weight px family s = 10 * real (length s)"

definition no_images :: "int \<rightharpoonup> image_el" where
  "no_images = Map.empty"

definition sticker_cache :: "int \<rightharpoonup> image_el" where
  "sticker_cache = [5 \<mapsto> \<lparr> el_src = ''data:image/png;base64,c3RpY2tlcg=='', el_complete = True \<rparr>]"

text \<open>
  Three collaborators with the key \<open>k\<close> typed in: one that always answers with an image,
  one that always throws, and one that throws exactly on the prompt \<open>fail\<close>.
\<close>

definition image_answer :: gen_outcome where
  "image_answer = GenParts (Some [None, Some (''image/png'', ''QUJD'')])"

definition env_answers :: ai_env where
  "env_answers = \<lparr> manualKey = ''k'', storedKey = None, aistudio = None,
                   generateContent = (\<lambda>req. image_answer), image_loads = (\<lambda>src. True) \<rparr>"

definition env_throws :: ai_env where
  "env_throws = \<lparr> manualKey = ''k'', storedKey = None, aistudio = None,
                  generateContent = (\<lambda>req. GenThrows), image_loads = (\<lambda>src. True) \<rparr>"


text \<open>Regions, a sticker and scenes for the export.\<close>

definition ai_region :: "int \<Rightarrow> SelectionArea" where
  "ai_region n = newSelection n 10 10 40 30 ImageAI ''#000000'' ''#ffffff'' 32"

definition text_region :: "int \<Rightarrow> SelectionArea" where
  "text_region n = newSelection n 50 50 40 30 Text ''#000000'' ''#ffffff'' 32"

definition a_sticker :: Sticker where
  "a_sticker = \<lparr> stk_id = 5, stk_src = ''data:image/png;base64,c3RpY2tlcg=='',
                 stk_x = 50, stk_y = 50, stk_w = 16, stk_h = 16, stk_rotation = 0,
                 stk_flipX = False, stk_opacity = 1, stk_scale = 1 \<rparr>"

definition ai_scene :: HistoryState where
  "ai_scene = \<lparr> hs_selections = [ai_region 7], hs_replacements = [7 \<mapsto> ''a cat''],
                hs_stickers = [], hs_customTexts = [] \<rparr>"

definition quiet_scene :: HistoryState where
  "quiet_scene = \<lparr> hs_selections = [text_region 3, ai_region 7], hs_replacements = [3 \<mapsto> ''hi''],
                   hs_stickers = [a_sticker], hs_customTexts = [] \<rparr>"






section \<open>History manager: theorems\<close>

lemma js_slice0_take: "-1 \<le> i \<Longrightarrow> js_slice0 xs (i + 1) = take (nat (i + 1)) xs"
  by (auto simp: js_slice0_def Let_def min_def)

lemma addToHistory_fields:
  "-1 \<le> historyIndex st \<Longrightarrow>
   history (addToHistory st) = take (nat (historyIndex st + 1)) (history st) @ [scene_of st] \<and>
   historyIndex (addToHistory st) = int (length (history (addToHistory st))) - 1"
  by (simp add: addToHistory_def Let_def js_slice0_take scene_of_def)

lemma cursor_ok_addToHistory: "cursor_ok st \<Longrightarrow> cursor_ok (addToHistory st)"
  by (auto simp: cursor_ok_def addToHistory_def Let_def js_slice0_def split: if_splits)

lemma cursor_ok_with_scene: "cursor_ok (with_scene s st) = cursor_ok st"
  by (simp add: cursor_ok_def with_scene_def)

lemma restoreState_neq: "i \<noteq> historyIndex st \<Longrightarrow> restoreState s i st \<noteq> st"
proof
  assume ne: "i \<noteq> historyIndex st" and eq: "restoreState s i st = st"
  have "historyIndex (restoreState s i st) = i" by (simp add: restoreState_def)
  with eq ne show False by simp
qed

lemma cursor_ok_restoreState:
  "history st \<noteq> [] \<Longrightarrow> 0 \<le> i \<Longrightarrow> i < int (length (history st)) \<Longrightarrow>
   cursor_ok (restoreState s i st)"
  by (simp add: cursor_ok_def restoreState_def)

lemma undo_ok:
  assumes "cursor_ok st"
  shows "\<exists>u. undo st = Inr u \<and> cursor_ok u \<and> (u \<noteq> st \<longleftrightarrow> historyIndex st > 0)"
proof (cases "historyIndex st > 0")
  case True
  with assms have ne: "history st \<noteq> []" and lt: "historyIndex st < int (length (history st))"
    by (auto simp: cursor_ok_def split: if_splits)
  let ?i = "historyIndex st - 1"
  from True lt have ix: "js_index (history st) ?i = Some (history st ! nat ?i)"
    by (simp add: js_index_def)
  have "undo st = Inr (restoreState (history st ! nat ?i) ?i st)"
    using True ix by (simp add: undo_def Let_def)
  moreover have "cursor_ok (restoreState (history st ! nat ?i) ?i st)"
    using ne True lt by (intro cursor_ok_restoreState) auto
  moreover have "restoreState (history st ! nat ?i) ?i st \<noteq> st"
    by (rule restoreState_neq) simp
  ultimately show ?thesis using True by simp
next
  case False
  with assms show ?thesis by (simp add: undo_def)
qed

lemma redo_ok:
  assumes "cursor_ok st"
  shows "\<exists>r. redo st = Inr r \<and> cursor_ok r \<and>
     (r \<noteq> st \<longleftrightarrow> historyIndex st < int (length (history st)) - 1)"
proof (cases "historyIndex st < int (length (history st)) - 1")
  case True
  with assms have ne: "history st \<noteq> []" and ge: "0 \<le> historyIndex st"
    by (auto simp: cursor_ok_def split: if_splits)
  let ?i = "historyIndex st + 1"
  from True ge have ix: "js_index (history st) ?i = Some (history st ! nat ?i)"
    by (simp add: js_index_def)
  have "redo st = Inr (restoreState (history st ! nat ?i) ?i st)"
    using True ix by (simp add: redo_def Let_def)
  moreover have "cursor_ok (restoreState (history st ! nat ?i) ?i st)"
    using ne True ge by (intro cursor_ok_restoreState) auto
  moreover have "restoreState (history st ! nat ?i) ?i st \<noteq> st"
    by (rule restoreState_neq) simp
  ultimately show ?thesis using True by simp
next
  case False
  with assms show ?thesis by (simp add: redo_def)
qed

lemma history_step_ok:
  assumes ok: "cursor_ok st"
  shows "\<exists>st'. history_step opn st = Inr st' \<and> cursor_ok st'"
proof (cases opn)
  case (Commit s)
  from ok have "cursor_ok (addToHistory (with_scene s st))"
    by (intro cursor_ok_addToHistory) (simp add: cursor_ok_with_scene)
  with Commit show ?thesis by simp
next
  case Undo
  then show ?thesis using undo_ok [OF ok] by auto
next
  case Redo
  then show ?thesis using redo_ok [OF ok] by auto
qed

lemma history_run_ok:
  "cursor_ok st \<Longrightarrow> \<exists>st'. history_run ops st = Inr st' \<and> cursor_ok st'"
proof (induction ops arbitrary: st)
  case Nil
  then show ?case by simp
next
  case (Cons opn ops)
  from history_step_ok [OF Cons.prems, of opn]
  obtain st1 where s: "history_step opn st = Inr st1" and ok: "cursor_ok st1" by blast
  from Cons.IH [OF ok] show ?case using s by simp
qed

lemma history_empty_ok: "history_empty st \<Longrightarrow> cursor_ok st"
  by (simp add: history_empty_def cursor_ok_def)

text \<open>
  Claim C2. From the history \<open>[A, B, C]\<close> with the cursor on \<open>C\<close>, two undos followed by a
  commit of \<open>D\<close> give the history \<open>[A, D]\<close> with the cursor at 1, and redo is then a
  no-op. In general (for a cursor of at least \<open>-1\<close>) a commit keeps the states up to the
  cursor, appends the snapshot of the scene and puts the cursor on the last index.
\<close>

theorem commit_after_undo_truncates:
  "(history st = [A, B, C] \<and> historyIndex st = 2 \<longrightarrow>
      (\<exists>st'. history_run [Undo, Undo, Commit D] st = Inr st' \<and>
             history st' = [A, D] \<and> historyIndex st' = 1 \<and> redo st' = Inr st')) \<and>
   (-1 \<le> historyIndex st \<longrightarrow>
      history (addToHistory st) = take (nat (historyIndex st + 1)) (history st) @ [scene_of st] \<and>
      historyIndex (addToHistory st) = int (length (history (addToHistory st))) - 1)"
proof (intro conjI impI)
  assume h: "history st = [A, B, C] \<and> historyIndex st = 2"
  then show "\<exists>st'. history_run [Undo, Undo, Commit D] st = Inr st' \<and>
             history st' = [A, D] \<and> historyIndex st' = 1 \<and> redo st' = Inr st'"
    by (simp add: undo_def redo_def js_index_def restoreState_def addToHistory_def
          with_scene_def js_slice0_def Let_def)
next
  assume "-1 \<le> historyIndex st"
  then show "history (addToHistory st)
               = take (nat (historyIndex st + 1)) (history st) @ [scene_of st]"
    using addToHistory_fields by blast
next
  assume "-1 \<le> historyIndex st"
  then show "historyIndex (addToHistory st) = int (length (history (addToHistory st))) - 1"
    using addToHistory_fields by blast
qed

text \<open>
  The theorem at the history of three one-region scenes: the run ends with the history
  \<open>[example_scene 1, example_scene 4]\<close> and the cursor at 1.
\<close>

theorem commit_after_undo_truncates_witness:
  "history abc_state = [example_scene 1, example_scene 2, example_scene 3] \<and>
   historyIndex abc_state = 2 \<and>
   (\<exists>st'. history_run [Undo, Undo, Commit (example_scene 4)] abc_state = Inr st' \<and>
          history st' = [example_scene 1, example_scene 4] \<and> historyIndex st' = 1 \<and>
          redo st' = Inr st') \<and>
   history (addToHistory abc_state) =
     [example_scene 1, example_scene 2, example_scene 3, scene_of abc_state] \<and>
   historyIndex (addToHistory abc_state) = 3"
proof -
  have h: "history abc_state = [example_scene 1, example_scene 2, example_scene 3]"
    and i: "historyIndex abc_state = 2"
    by (simp_all add: abc_state_def)
  from commit_after_undo_truncates
         [where st = abc_state and A = "example_scene 1" and B = "example_scene 2"
            and C = "example_scene 3" and D = "example_scene 4"]
  show ?thesis by (simp add: h i)
qed

text \<open>
  Claim C3. Every run of commits, undos and redos that starts from the empty history
  ends, without an error, in a state whose cursor is \<open>-1\<close> if the history is empty and a
  valid index otherwise; there undo changes the state exactly when the cursor is
  positive, and redo exactly when the cursor is below the last index.
\<close>

theorem history_cursor_invariant:
  assumes "history_empty st0"
  shows "\<exists>st. history_run ops st0 = Inr st \<and> cursor_ok st \<and>
           (\<exists>u. undo st = Inr u \<and> (u \<noteq> st \<longleftrightarrow> historyIndex st > 0)) \<and>
           (\<exists>r. redo st = Inr r \<and>
                (r \<noteq> st \<longleftrightarrow> historyIndex st < int (length (history st)) - 1))"
proof -
  from history_run_ok [OF history_empty_ok [OF assms], of ops]
  obtain st where r: "history_run ops st0 = Inr st" and ok: "cursor_ok st" by blast
  from undo_ok [OF ok] redo_ok [OF ok] r ok show ?thesis by blast
qed

text \<open>The theorem at a run of six operations from the freshly loaded application.\<close>

theorem history_cursor_invariant_witness:
  "history_empty fresh_state \<and>
   (\<exists>st. history_run [Commit (example_scene 1), Commit (example_scene 2), Undo, Redo, Undo,
                      Commit (example_scene 3)] fresh_state = Inr st \<and>
         cursor_ok st \<and>
         (\<exists>u. undo st = Inr u \<and> (u \<noteq> st \<longleftrightarrow> historyIndex st > 0)) \<and>
         (\<exists>r. redo st = Inr r \<and>
              (r \<noteq> st \<longleftrightarrow> historyIndex st < int (length (history st)) - 1)))"
proof -
  have e: "history_empty fresh_state"
    by (simp add: history_empty_def fresh_state_def)
  from history_cursor_invariant [OF e] e show ?thesis by blast
qed

section \<open>Text layout: theorems\<close>

lemma concat_wrap_chars:
  "wrap_chars m W cs (al, cur) = (al', cur') \<Longrightarrow> concat al' @ cur' = concat al @ cur @ cs"
  by (induction cs arbitrary: al cur) (auto simp: Let_def split: if_splits)

lemma concat_wrap_paragraph: "concat (wrap_paragraph m W al p) = concat al @ p"
proof (cases "wrap_chars m W p (al, [])")
  case (Pair al' cur')
  from concat_wrap_chars [OF Pair] have "concat al' @ cur' = concat al @ p" by simp
  with Pair show ?thesis by (auto simp: wrap_paragraph_def)
qed

lemma concat_foldl_wrap:
  "concat (foldl (wrap_paragraph m W) al ps) = concat al @ concat ps"
  by (induction ps arbitrary: al) (simp_all add: concat_wrap_paragraph)

lemma split_newlines_nonempty: "split_newlines t \<noteq> []"
  by (induction t) (auto split: list.splits)

lemma concat_split_newlines: "concat (split_newlines t) = strip_newlines t"
  by (induction t) (auto simp: strip_newlines_def split: list.splits)

lemma split_no_newline: "list_all (\<lambda>l. newline \<notin> set l) (split_newlines t)"
  by (induction t) (auto split: list.splits)

lemma join_split: "join_newlines (split_newlines t) = t"
proof (induction t)
  case Nil
  then show ?case by simp
next
  case (Cons c t)
  then show ?case
    by (cases "split_newlines t"; cases "tl (split_newlines t)")
       (auto simp: split_newlines_nonempty split: list.splits)
qed

lemma split_join:
  "ls \<noteq> [] \<Longrightarrow> list_all (\<lambda>l. newline \<notin> set l) ls \<Longrightarrow> split_newlines (join_newlines ls) = ls"
proof (induction ls rule: join_newlines.induct)
  case 1
  then show ?case by simp
next
  case (2 l)
  then show ?case by (induction l) (auto split: list.splits)
next
  case (3 l v va)
  then have IH: "split_newlines (join_newlines (v # va)) = v # va" by simp
  from 3 have "newline \<notin> set l" by simp
  then show ?case using IH
    by (induction l) (auto split: list.splits)
qed

lemma two_lines_split: "split_newlines two_lines = [''ab'', ''cd'']"
  by (simp add: two_lines_def newline_def)

text \<open>
  Claim C10. For every text, width and measurement, the lines returned by
  \<open>wrapTextWithNewlines\<close>, concatenated in order, are the text without its line breaks.
\<close>

theorem wrap_preserves_characters:
  "concat (wrapTextWithNewlines m text maxWidth) = strip_newlines text"
  by (simp add: wrapTextWithNewlines_def concat_foldl_wrap concat_split_newlines)

text \<open>The theorem at a two-line text that has to be broken once more.\<close>

theorem wrap_preserves_characters_witness:
  "wrapTextWithNewlines kerned_measure two_lines 3 = [''a'', ''b'', ''cd''] \<and>
   concat (wrapTextWithNewlines kerned_measure two_lines 3) = ''abcd'' \<and>
   strip_newlines two_lines = ''abcd''"
proof -
  have w: "wrapTextWithNewlines kerned_measure two_lines 3 = [''a'', ''b'', ''cd'']"
    by (simp add: wrapTextWithNewlines_def two_lines_split wrap_paragraph_def
          kerned_measure_def Let_def)
  from wrap_preserves_characters [of kerned_measure two_lines 3] w
  show ?thesis by simp
qed

lemma prefixes_fit_iff:
  "prefixes_fit m W l \<longleftrightarrow> (\<forall>n. 2 \<le> n \<and> n \<le> length l \<longrightarrow> m (take n l) \<le> W)"
  by (auto simp: prefixes_fit_def list_all_iff)

lemma prefixes_fit_single: "prefixes_fit m W [c]"
  by (simp add: prefixes_fit_def)

lemma prefixes_fit_Nil: "prefixes_fit m W []"
  by (simp add: prefixes_fit_def)

lemma prefixes_fit_snoc:
  assumes "prefixes_fit m W cur" and "cur \<noteq> [] \<Longrightarrow> m (cur @ [c]) \<le> W"
  shows "prefixes_fit m W (cur @ [c])"
  unfolding prefixes_fit_iff
proof (intro allI impI)
  fix n assume n: "2 \<le> n \<and> n \<le> length (cur @ [c])"
  show "m (take n (cur @ [c])) \<le> W"
  proof (cases "n \<le> length cur")
    case True
    with n assms(1) show ?thesis by (simp add: prefixes_fit_iff)
  next
    case False
    with n have "n = Suc (length cur)" and "cur \<noteq> []" by auto
    with assms(2) show ?thesis by simp
  qed
qed

text \<open>A line whose prefixes fit goes through the inner loop without a break.\<close>

lemma wrap_chars_fitting:
  "(\<forall>k. 1 \<le> k \<and> k \<le> length cs \<and> cur @ take (k - 1) cs \<noteq> [] \<longrightarrow> m (cur @ take k cs) \<le> W)
   \<Longrightarrow> wrap_chars m W cs (al, cur) = (al, cur @ cs)"
proof (induction cs arbitrary: cur)
  case Nil
  then show ?case by simp
next
  case (Cons c cs)
  have first: "cur \<noteq> [] \<Longrightarrow> m (cur @ [c]) \<le> W"
    using Cons.prems [rule_format, of 1] by simp
  have rest: "\<forall>k. 1 \<le> k \<and> k \<le> length cs \<and> (cur @ [c]) @ take (k - 1) cs \<noteq> []
                \<longrightarrow> m ((cur @ [c]) @ take k cs) \<le> W"
  proof (intro allI impI)
    fix k assume k: "1 \<le> k \<and> k \<le> length cs \<and> (cur @ [c]) @ take (k - 1) cs \<noteq> []"
    then have "m (cur @ take (Suc k) (c # cs)) \<le> W"
      using Cons.prems [rule_format, of "Suc k"] by simp
    then show "m ((cur @ [c]) @ take k cs) \<le> W" by simp
  qed
  from Cons.IH [OF rest] first show ?case by (auto simp: Let_def)
qed

lemma wrap_paragraph_fitting:
  assumes "prefixes_fit m W l"
  shows "wrap_paragraph m W al l = al @ [l]"
proof (cases "l = []")
  case True
  then show ?thesis by (simp add: wrap_paragraph_def)
next
  case False
  have "\<forall>k. 1 \<le> k \<and> k \<le> length l \<and> [] @ take (k - 1) l \<noteq> [] \<longrightarrow> m ([] @ take k l) \<le> W"
  proof (intro allI impI)
    fix k assume k: "1 \<le> k \<and> k \<le> length l \<and> [] @ take (k - 1) l \<noteq> []"
    then have "2 \<le> k" by (cases k) (auto simp: Suc_le_eq)
    with k assms show "m ([] @ take k l) \<le> W" by (simp add: prefixes_fit_iff)
  qed
  from wrap_chars_fitting [OF this] have "wrap_chars m W l (al, []) = (al, l)" by simp
  with False show ?thesis by (simp add: wrap_paragraph_def)
qed

lemma foldl_wrap_fitting:
  "list_all (prefixes_fit m W) ls \<Longrightarrow> foldl (wrap_paragraph m W) al ls = al @ ls"
  by (induction ls arbitrary: al) (simp_all add: wrap_paragraph_fitting)

text \<open>The loop only ever pushes lines whose prefixes fit.\<close>

lemma wrap_chars_good:
  "wrap_chars m W cs (al, cur) = (al', cur') \<Longrightarrow> newline \<notin> set cs \<Longrightarrow>
   list_all (good_line m W) al \<Longrightarrow> good_line m W cur \<Longrightarrow>
   list_all (good_line m W) al' \<and> good_line m W cur'"
proof (induction cs arbitrary: al cur)
  case Nil
  then show ?case by simp
next
  case (Cons c cs)
  show ?case
  proof (cases "m (cur @ [c]) > W \<and> cur \<noteq> []")
    case True
    with Cons.prems(1) have step: "wrap_chars m W cs (al @ [cur], [c]) = (al', cur')"
      by (simp add: Let_def)
    from Cons.prems have "list_all (good_line m W) (al @ [cur])" by simp
    moreover from Cons.prems(2) have "good_line m W [c]"
      by (simp add: good_line_def prefixes_fit_single)
    ultimately show ?thesis using Cons.IH [OF step] Cons.prems(2) by simp
  next
    case False
    with Cons.prems(1) have step: "wrap_chars m W cs (al, cur @ [c]) = (al', cur')"
      by (auto simp: Let_def)
    from False Cons.prems(2,4) have "good_line m W (cur @ [c])"
      by (auto simp: good_line_def intro!: prefixes_fit_snoc)
    then show ?thesis using Cons.IH [OF step] Cons.prems(2,3) by simp
  qed
qed

lemma wrap_paragraph_good:
  assumes "newline \<notin> set p" "list_all (good_line m W) al"
  shows "list_all (good_line m W) (wrap_paragraph m W al p)"
proof (cases "wrap_chars m W p (al, [])")
  case (Pair al' cur')
  have "good_line m W []" by (simp add: good_line_def prefixes_fit_Nil)
  from wrap_chars_good [OF Pair assms(1) assms(2) this] Pair assms(2)
  show ?thesis by (auto simp: wrap_paragraph_def good_line_def prefixes_fit_Nil)
qed

lemma foldl_wrap_good:
  "list_all (\<lambda>l. newline \<notin> set l) ps \<Longrightarrow> list_all (good_line m W) al \<Longrightarrow>
   list_all (good_line m W) (foldl (wrap_paragraph m W) al ps)"
  by (induction ps arbitrary: al) (simp_all add: wrap_paragraph_good)

lemma wrap_chars_keeps:
  "wrap_chars m W cs (al, cur) = (al', cur') \<Longrightarrow>
   length al \<le> length al' \<and> (cs \<noteq> [] \<or> cur \<noteq> [] \<longrightarrow> cur' \<noteq> [])"
  by (induction cs arbitrary: al cur) (fastforce simp: Let_def split: if_splits)+

lemma wrap_paragraph_length: "length al < length (wrap_paragraph m W al p)"
proof (cases "wrap_chars m W p (al, [])")
  case (Pair al' cur')
  from wrap_chars_keeps [OF Pair] Pair show ?thesis
    by (auto simp: wrap_paragraph_def)
qed

lemma foldl_wrap_length:
  "length al + length ps \<le> length (foldl (wrap_paragraph m W) al ps)"
proof (induction ps arbitrary: al)
  case Nil
  then show ?case by simp
next
  case (Cons p ps)
  from Cons.IH [of "wrap_paragraph m W al p"] wrap_paragraph_length [of al m W p]
  show ?case by simp
qed

lemma wrap_nonempty: "wrapTextWithNewlines m t W \<noteq> []"
proof -
  from foldl_wrap_length [of "[]" "split_newlines t" m W] split_newlines_nonempty [of t]
  have "0 < length (wrapTextWithNewlines m t W)"
    by (cases "split_newlines t") (auto simp: wrapTextWithNewlines_def)
  then show ?thesis by simp
qed

lemma wrap_good: "list_all (good_line m W) (wrapTextWithNewlines m t W)"
  unfolding wrapTextWithNewlines_def
  by (rule foldl_wrap_good) (simp_all add: split_no_newline)

lemma wrap_of_fitting_lines:
  assumes "ls \<noteq> []" "list_all (good_line m W) ls"
  shows "wrapTextWithNewlines m (join_newlines ls) W = ls"
proof -
  from assms(2) have nn: "list_all (\<lambda>l. newline \<notin> set l) ls"
    and pf: "list_all (prefixes_fit m W) ls"
    by (simp_all add: good_line_def list_all_iff)
  from split_join [OF assms(1) nn] foldl_wrap_fitting [OF pf, of "[]"]
  show ?thesis by (simp add: wrapTextWithNewlines_def)
qed

text \<open>
  Claim C8, as stated, fails: the measurement \<open>kerned_measure\<close> gives the one line of the
  text \<open>abc\<close> the width 1, which is at most 3, and wrapping that text at width 3 returns
  the two lines \<open>a\<close> and \<open>bc\<close>, because the prefix \<open>ab\<close> measures 5.
\<close>

theorem wrap_rewrap_counterexample:
  "split_newlines ''abc'' = [''abc''] \<and>
   lines_fit kerned_measure 3 (split_newlines ''abc'') \<and>
   wrapTextWithNewlines kerned_measure (join_newlines (split_newlines ''abc'')) 3 = [''a'', ''bc''] \<and>
   wrapTextWithNewlines kerned_measure (join_newlines (split_newlines ''abc'')) 3
     \<noteq> split_newlines ''abc''"
  by (simp add: lines_fit_def kerned_measure_def newline_def wrapTextWithNewlines_def
        wrap_paragraph_def Let_def)

text \<open>
  Claim C8, amended. For every measurement, width and text: if every prefix of two or
  more code units of each explicit-break-separated line measures at most \<open>maxWidth\<close>, then
  wrapping the rejoined lines returns exactly these lines; and the lines returned by the
  wrap routine, rejoined with line breaks and wrapped again, are returned unchanged.
\<close>

theorem wrap_idempotent:
  "(list_all (prefixes_fit m maxWidth) (split_newlines text) \<longrightarrow>
      wrapTextWithNewlines m (join_newlines (split_newlines text)) maxWidth
        = split_newlines text) \<and>
   wrapTextWithNewlines m (join_newlines (wrapTextWithNewlines m text maxWidth)) maxWidth
     = wrapTextWithNewlines m text maxWidth"
proof (intro conjI impI)
  assume "list_all (prefixes_fit m maxWidth) (split_newlines text)"
  then show "wrapTextWithNewlines m (join_newlines (split_newlines text)) maxWidth
               = split_newlines text"
    by (simp add: join_split wrapTextWithNewlines_def foldl_wrap_fitting)
next
  show "wrapTextWithNewlines m (join_newlines (wrapTextWithNewlines m text maxWidth)) maxWidth
          = wrapTextWithNewlines m text maxWidth"
    by (rule wrap_of_fitting_lines [OF wrap_nonempty wrap_good])
qed

text \<open>
  The theorem at the two-line text: at width 7 its lines stay as they are, and at width 3
  the three lines of the first wrap come back from the second.
\<close>

theorem wrap_idempotent_witness:
  "list_all (prefixes_fit kerned_measure 7) (split_newlines two_lines) \<and>
   wrapTextWithNewlines kerned_measure (join_newlines (split_newlines two_lines)) 7
     = [''ab'', ''cd''] \<and>
   wrapTextWithNewlines kerned_measure
     (join_newlines (wrapTextWithNewlines kerned_measure two_lines 3)) 3
     = wrapTextWithNewlines kerned_measure two_lines 3"
proof -
  have fit: "list_all (prefixes_fit kerned_measure 7) (split_newlines two_lines)"
    by (simp add: two_lines_split prefixes_fit_def kerned_measure_def)
  from wrap_idempotent [of kerned_measure 7 two_lines]
       wrap_idempotent [of kerned_measure 3 two_lines] fit
  show ?thesis by (simp add: two_lines_split)
qed

section \<open>Colour analyzer: theorems\<close>

lemma js_round_mono: "a \<le> b \<Longrightarrow> js_round a \<le> js_round b"
  by (simp add: js_round_def floor_mono)

lemma js_round_le: "real_of_int (js_round v) \<le> v + 1 / 2"
  by (simp add: js_round_def)

lemma js_round_ge0: "0 \<le> v \<Longrightarrow> 0 \<le> js_round v"
  by (simp add: js_round_def)

subsection \<open>Double arithmetic\<close>

lemma pow2_powr: "pow2 e = 2 powr real_of_int e"
  by (simp add: pow2_def powr_real_of_int inverse_eq_divide)

lemma pow2_pos: "0 < pow2 e"
  by (simp add: pow2_powr)

text \<open>Rounding a positive number whose binary exponent \<open>k\<close> is known.\<close>

lemma round_double_eval:
  assumes lo: "pow2 k \<le> x" and hi: "x < 2 * pow2 k" and k: "- 1022 \<le> k"
  shows "round_double x = real_of_int (round_half_even (x / pow2 (k - 52))) * pow2 (k - 52)"
proof -
  from lo pow2_pos [of k] have x: "0 < x" by linarith
  have "2 powr (real_of_int k + 1) = 2 * pow2 k"
    by (simp add: powr_add pow2_powr)
  with lo hi x have "\<lfloor>log 2 x\<rfloor> = k"
    by (simp add: floor_log_eq_powr_iff pow2_powr)
  with x k have "ulp_exponent x = k - 52"
    by (simp add: ulp_exponent_def)
  with x show ?thesis by (simp add: round_double_def)
qed

lemma round_double_0: "round_double 0 = 0"
  by (simp add: round_double_def)

lemma round_half_even_err: "\<bar>real_of_int (round_half_even q) - q\<bar> \<le> 1 / 2"
  unfolding round_half_even_def Let_def
  by (auto simp: abs_if) linarith+

text \<open>The relative error of one rounding in the normal range.\<close>

lemma round_double_rel:
  assumes big: "pow2 (- 1022) \<le> x"
  shows "x * (1 - 1 / 2 ^ 53) \<le> round_double x \<and> round_double x \<le> x * (1 + 1 / 2 ^ 53)"
proof -
  from big pow2_pos [of "- 1022"] have x: "0 < x" by linarith
  define k where "k = \<lfloor>log 2 x\<rfloor>"
  have kx: "pow2 k \<le> x \<and> x < 2 * pow2 k"
    using floor_log_eq_powr_iff [of x 2 k] x
    by (simp add: k_def pow2_powr powr_add)
  have "real_of_int (- 1022) \<le> log 2 x"
    using big x by (subst le_log_iff) (simp_all add: pow2_powr)
  then have k1022: "- 1022 \<le> k" unfolding k_def by (simp add: le_floor_iff)
  let ?u = "pow2 (k - 52)"
  have u: "?u = pow2 k / 2 ^ 52"
    by (simp add: pow2_powr powr_diff)
  have upos: "0 < ?u" by (rule pow2_pos)
  from round_double_eval [of k x] kx k1022
  have rd: "round_double x = real_of_int (round_half_even (x / ?u)) * ?u" by simp
  have "round_double x - x = (real_of_int (round_half_even (x / ?u)) - x / ?u) * ?u"
    using upos by (simp add: rd left_diff_distrib)
  then have "\<bar>round_double x - x\<bar> = \<bar>real_of_int (round_half_even (x / ?u)) - x / ?u\<bar> * ?u"
    using upos by (simp add: abs_mult)
  also have "\<dots> \<le> (1 / 2) * ?u"
    using upos round_half_even_err [of "x / ?u"] by (intro mult_right_mono) auto
  also have "\<dots> = pow2 k / 2 ^ 53" by (simp add: u)
  also have "\<dots> \<le> x / 2 ^ 53" using kx by (simp add: divide_right_mono)
  finally have err: "\<bar>round_double x - x\<bar> \<le> x / 2 ^ 53" .
  define E where "E = x / 2 ^ 53"
  have lo: "x * (1 - 1 / 2 ^ 53) = x - E" and hi: "x * (1 + 1 / 2 ^ 53) = x + E"
    by (simp_all add: E_def algebra_simps)
  from err have "\<bar>round_double x - x\<bar> \<le> E" by (simp only: E_def)
  then show ?thesis unfolding lo hi by linarith
qed

lemma within_ulps_exact: "0 \<le> V \<Longrightarrow> within_ulps 0 V V"
  by (simp add: within_ulps_def)

lemma within_ulps_mono: "within_ulps n v V \<Longrightarrow> n \<le> m \<Longrightarrow> within_ulps m v V"
proof -
  assume a: "within_ulps n v V" and nm: "n \<le> m"
  have lo: "(1 - 1 / 2 ^ 53 :: real) ^ m \<le> (1 - 1 / 2 ^ 53) ^ n"
    using nm by (intro power_decreasing) simp_all
  have hi: "(1 + 1 / 2 ^ 53 :: real) ^ n \<le> (1 + 1 / 2 ^ 53) ^ m"
    using nm by (intro power_increasing) simp_all
  from a have V: "0 \<le> V" by (simp add: within_ulps_def)
  from mult_left_mono [OF lo V] mult_left_mono [OF hi V] a
  show ?thesis unfolding within_ulps_def by linarith
qed

lemma within_ulps_scale: "within_ulps n c C \<Longrightarrow> 0 \<le> r \<Longrightarrow> within_ulps n (c * r) (C * r)"
proof -
  assume a: "within_ulps n c C" and r: "0 \<le> r"
  from a have "C * (1 - 1 / 2 ^ 53) ^ n * r \<le> c * r" "c * r \<le> C * (1 + 1 / 2 ^ 53) ^ n * r"
    "0 \<le> C"
    using r by (auto simp: within_ulps_def intro: mult_right_mono)
  then show ?thesis using r by (simp add: within_ulps_def ac_simps)
qed

lemma within_ulps_add:
  "within_ulps n a A \<Longrightarrow> within_ulps n b B \<Longrightarrow> within_ulps n (a + b) (A + B)"
  by (simp add: within_ulps_def distrib_right)

lemma within_ulps_round:
  assumes a: "within_ulps n v V" and n: "n \<le> 5" and V: "V = 0 \<or> 1 / 10000 \<le> V"
  shows "within_ulps (Suc n) (round_double v) V"
proof (cases "V = 0")
  case True
  with a have "v = 0" by (simp add: within_ulps_def)
  with True show ?thesis by (simp add: round_double_0 within_ulps_def)
next
  case False
  with V have Vb: "1 / 10000 \<le> V" by simp
  have lo5: "(1 - 1 / 2 ^ 53 :: real) ^ 5 \<le> (1 - 1 / 2 ^ 53) ^ n"
    using n by (intro power_decreasing) simp_all
  have half: "(1 / 2 :: real) \<le> (1 - 1 / 2 ^ 53) ^ 5" by (simp add: power_divide)
  from a have lo: "V * (1 - 1 / 2 ^ 53) ^ n \<le> v" and hi: "v \<le> V * (1 + 1 / 2 ^ 53) ^ n"
    and V0: "0 \<le> V"
    by (simp_all add: within_ulps_def)
  have "V * (1 / 2) \<le> V * (1 - 1 / 2 ^ 53) ^ n"
    using half lo5 V0 by (intro mult_left_mono) linarith+
  with lo Vb have vb: "1 / 20000 \<le> v" by linarith
  have "pow2 (- 1022) \<le> 1 / 20000"
    by (simp add: pow2_def)
  with vb have "pow2 (- 1022) \<le> v" by linarith
  from round_double_rel [OF this]
  have r1: "v * (1 - 1 / 2 ^ 53) \<le> round_double v"
    and r2: "round_double v \<le> v * (1 + 1 / 2 ^ 53)"
    by simp_all
  have "V * (1 - 1 / 2 ^ 53) ^ n * (1 - 1 / 2 ^ 53) \<le> v * (1 - 1 / 2 ^ 53)"
    using lo by (intro mult_right_mono) simp_all
  moreover have "v * (1 + 1 / 2 ^ 53) \<le> V * (1 + 1 / 2 ^ 53) ^ n * (1 + 1 / 2 ^ 53)"
    using hi by (intro mult_right_mono) simp_all
  ultimately show ?thesis using r1 r2 V0
    by (simp add: within_ulps_def mult.assoc)
qed

text \<open>The double literals of the analyzer and the products the sample inputs need.\<close>

lemma lit_07: "dbl_lit 0.7 = 3152519739159347 / 4503599627370496"
  unfolding dbl_lit_def
  by (subst round_double_eval [where k = "-1"]) (simp_all add: pow2_def round_half_even_def)

lemma lit_0299: "dbl_lit 0.299 = 5386305154335113 / 18014398509481984"
  unfolding dbl_lit_def
  by (subst round_double_eval [where k = "-2"]) (simp_all add: pow2_def round_half_even_def)

lemma lit_0587: "dbl_lit 0.587 = 2643612981266481 / 4503599627370496"
  unfolding dbl_lit_def
  by (subst round_double_eval [where k = "-1"]) (simp_all add: pow2_def round_half_even_def)

lemma lit_0114: "dbl_lit 0.114 = 8214565720323785 / 72057594037927936"
  unfolding dbl_lit_def
  by (subst round_double_eval [where k = "-4"]) (simp_all add: pow2_def round_half_even_def)

lemma mul_07_6: "dbl_mul 6 (dbl_lit 0.7) = 1182194902184755 / 281474976710656"
  unfolding dbl_mul_def lit_07
  by (subst round_double_eval [where k = 2]) (simp_all add: pow2_def round_half_even_def)

lemma mul_07_21: "dbl_mul 21 (dbl_lit 0.7) = 4137682157646643 / 281474976710656"
  unfolding dbl_mul_def lit_07
  by (subst round_double_eval [where k = 3]) (simp_all add: pow2_def round_half_even_def)

lemma mul_07_20_5: "dbl_mul (41 / 2) (dbl_lit 0.7) = 8078331831595827 / 562949953421312"
  unfolding dbl_mul_def lit_07
  by (subst round_double_eval [where k = 3]) (simp_all add: pow2_def round_half_even_def)

lemma mul_07_40: "dbl_mul 40 (dbl_lit 0.7) = 28"
  unfolding dbl_mul_def lit_07
  by (subst round_double_eval [where k = 4]) (simp_all add: pow2_def round_half_even_def)

lemma mul_07_45: "dbl_mul 45 (dbl_lit 0.7) = 8866461766385663 / 281474976710656"
  unfolding dbl_mul_def lit_07
  by (subst round_double_eval [where k = 4]) (simp_all add: pow2_def round_half_even_def)

subsection \<open>Font size\<close>

text \<open>The font size that \<open>analyzeTextAreaFast\<close> returns when there is a canvas.\<close>

lemma analyze_fontSize:
  "a_fontSize (analyzeTextAreaFast (Some ctx) x y w h) =
     (if safe_width ctx x w \<le> 0 \<or> safe_height ctx y h \<le> 0
      then js_round (dbl_mul h (dbl_lit 0.7))
      else max 12 (min 200 (js_round (dbl_mul (real_of_int (safe_height ctx y h)) (dbl_lit 0.7)))))"
  unfolding analyzeTextAreaFast_def safe_width_def safe_height_def Let_def
  by (simp only: option.case if_distrib [of a_fontSize] analysis.select_convs)

text \<open>
  Claim C5, as stated, fails in two ways. The rectangle \<open>(10, 10, 50, 20.5)\<close> lies inside
  the 100 by 100 raster; the analyzer rounds the height to 21 before it scales it and
  returns 15, and \<open>clamp(round(20.5 * 0.7), 12, 200)\<close> is 14, in double and in exact
  arithmetic. The rectangle \<open>(10, 10, 0.25, 6)\<close> lies inside the raster too; its width rounds
  to 0, the analyzer takes the early return of line 187 and returns \<open>round(6 * 0.7) = 4\<close>
  without clamping it, and \<open>clamp(round(6 * 0.7), 12, 200)\<close> is 12.
\<close>

theorem analyzer_font_size_counterexample:
  "inside_raster white_raster 10 10 50 (41 / 2) \<and>
   a_fontSize (analyzeTextAreaFast (Some white_raster) 10 10 50 (41 / 2)) = 15 \<and>
   clamp (js_round (dbl_mul (41 / 2) (dbl_lit 0.7))) 12 200 = 14 \<and>
   clamp (js_round ((41 / 2) * 0.7)) 12 200 = 14 \<and>
   inside_raster white_raster 10 10 (1 / 4) 6 \<and>
   a_fontSize (analyzeTextAreaFast (Some white_raster) 10 10 (1 / 4) 6) = 4 \<and>
   clamp (js_round (dbl_mul 6 (dbl_lit 0.7))) 12 200 = 12 \<and>
   clamp (js_round (6 * 0.7)) 12 200 = 12"
proof -
  have ins: "inside_raster white_raster 10 10 50 (41 / 2)"
    "inside_raster white_raster 10 10 (1 / 4) 6"
    by (simp_all add: inside_raster_def white_raster_def uniform_raster_def)
  have sw: "safe_width white_raster 10 50 = 50"
    by (simp add: safe_width_def white_raster_def uniform_raster_def js_round_def)
  have sh: "safe_height white_raster 10 (41 / 2) = 21"
    by (simp add: safe_height_def white_raster_def uniform_raster_def js_round_def)
  have code: "a_fontSize (analyzeTextAreaFast (Some white_raster) 10 10 50 (41 / 2)) = 15"
    by (simp add: analyze_fontSize sw sh mul_07_21 js_round_def)
  have spec: "clamp (js_round (dbl_mul (41 / 2) (dbl_lit 0.7))) 12 200 = 14"
    "clamp (js_round ((41 / 2) * 0.7)) 12 200 = 14"
    by (simp_all add: mul_07_20_5 js_round_def clamp_def)
  have sw0: "safe_width white_raster 10 (1 / 4) = 0"
    by (simp add: safe_width_def white_raster_def uniform_raster_def js_round_def)
  have code0: "a_fontSize (analyzeTextAreaFast (Some white_raster) 10 10 (1 / 4) 6) = 4"
    by (simp add: analyze_fontSize sw0 mul_07_6 js_round_def)
  have spec0: "clamp (js_round (dbl_mul 6 (dbl_lit 0.7))) 12 200 = 12"
    "clamp (js_round (6 * 0.7)) 12 200 = 12"
    by (simp_all add: mul_07_6 js_round_def clamp_def)
  from ins code spec code0 spec0 show ?thesis by simp
qed

text \<open>
  Claim C5, amended. For every rectangle inside the raster whose rounded width and
  rounded height are at least 1, the analyzer returns the font size
  \<open>clamp(round(H * 0.7), 12, 200)\<close>, a value in \<open>[12, 200]\<close>, where \<open>H\<close> is the height the
  analyzer works with (the rounded height, cut to the rows below the rounded top edge)
  and the product is the double product that the code computes. When the height \<open>h\<close> is
  a whole number, the font size is \<open>clamp(round(h * 0.7), 12, 200)\<close> with that product.
  (A rectangle whose rounded width or height is 0 takes the early return, whose value is
  not clamped; the amended claim says nothing about it.)
\<close>

theorem analyzer_font_size:
  assumes ins: "inside_raster ctx x y w h" and w1: "1 \<le> js_round w" and h1: "1 \<le> js_round h"
  shows "a_fontSize (analyzeTextAreaFast (Some ctx) x y w h)
           = clamp (js_round (dbl_mul (real_of_int (safe_height ctx y h)) (dbl_lit 0.7))) 12 200 \<and>
         12 \<le> a_fontSize (analyzeTextAreaFast (Some ctx) x y w h) \<and>
         a_fontSize (analyzeTextAreaFast (Some ctx) x y w h) \<le> 200 \<and>
         (h = real_of_int (js_round h) \<longrightarrow>
            a_fontSize (analyzeTextAreaFast (Some ctx) x y w h)
              = clamp (js_round (dbl_mul h (dbl_lit 0.7))) 12 200)"
proof -
  from ins have W: "1 \<le> r_width ctx" and H: "1 \<le> r_height ctx"
    by (auto simp: inside_raster_def)
  from W w1 have sw: "\<not> safe_width ctx x w \<le> 0" unfolding safe_width_def by linarith
  from H h1 have sh: "\<not> safe_height ctx y h \<le> 0" unfolding safe_height_def by linarith
  have main: "a_fontSize (analyzeTextAreaFast (Some ctx) x y w h)
           = clamp (js_round (dbl_mul (real_of_int (safe_height ctx y h)) (dbl_lit 0.7))) 12 200"
    using sw sh by (simp only: analyze_fontSize clamp_def simp_thms if_False)
  have whole: "safe_height ctx y h = js_round h" if eq: "h = real_of_int (js_round h)"
  proof -
    from ins have y0: "0 \<le> y" and yh: "y + h \<le> real_of_int (r_height ctx)"
      by (auto simp: inside_raster_def)
    let ?sy = "max 0 (min (js_round y) (r_height ctx - 1))"
    have "?sy \<le> js_round y" using js_round_ge0 [OF y0] by linarith
    moreover have "real_of_int (js_round y) \<le> y + 1 / 2" by (rule js_round_le)
    ultimately have "real_of_int ?sy + real_of_int (js_round h)
                       \<le> real_of_int (r_height ctx) + 1 / 2"
      using yh eq by linarith
    then have "?sy + js_round h \<le> r_height ctx" by linarith
    then show ?thesis unfolding safe_height_def by linarith
  qed
  have lo: "12 \<le> clamp v 12 200" and hi: "clamp v 12 200 \<le> 200" for v
    by (simp_all add: clamp_def)
  show ?thesis
  proof (intro conjI impI)
    show "a_fontSize (analyzeTextAreaFast (Some ctx) x y w h)
           = clamp (js_round (dbl_mul (real_of_int (safe_height ctx y h)) (dbl_lit 0.7))) 12 200"
      by (rule main)
    show "12 \<le> a_fontSize (analyzeTextAreaFast (Some ctx) x y w h)" unfolding main by (rule lo)
    show "a_fontSize (analyzeTextAreaFast (Some ctx) x y w h) \<le> 200" unfolding main by (rule hi)
  next
    assume eq: "h = real_of_int (js_round h)"
    have "real_of_int (safe_height ctx y h) = h" using whole [OF eq] eq by simp
    then show "a_fontSize (analyzeTextAreaFast (Some ctx) x y w h)
                 = clamp (js_round (dbl_mul h (dbl_lit 0.7))) 12 200"
      unfolding main by simp
  qed
qed

text \<open>
  The theorem at the rectangles \<open>(10, 10, 80, 40)\<close> and \<open>(10, 10, 50, 45)\<close>: the font sizes
  are 28 and 31, the double product \<open>45 * 0.7\<close> lying just below 31.5.
\<close>

theorem analyzer_font_size_witness:
  "inside_raster white_raster 10 10 80 40 \<and> 1 \<le> js_round 80 \<and> 1 \<le> js_round 40 \<and>
   a_fontSize (analyzeTextAreaFast (Some white_raster) 10 10 80 40) = 28 \<and>
   inside_raster white_raster 10 10 50 45 \<and> 1 \<le> js_round 50 \<and> 1 \<le> js_round 45 \<and>
   a_fontSize (analyzeTextAreaFast (Some white_raster) 10 10 50 45) = 31"
proof -
  have ins: "inside_raster white_raster 10 10 80 40" "inside_raster white_raster 10 10 50 45"
    by (simp_all add: inside_raster_def white_raster_def uniform_raster_def)
  have w1: "1 \<le> js_round 80" "1 \<le> js_round 50" and h1: "1 \<le> js_round 40" "1 \<le> js_round 45"
    by (simp_all add: js_round_def)
  have whole: "(40::real) = real_of_int (js_round 40)" "(45::real) = real_of_int (js_round 45)"
    by (simp_all add: js_round_def)
  have c: "clamp (js_round (dbl_mul 40 (dbl_lit 0.7))) 12 200 = 28"
    "clamp (js_round (dbl_mul 45 (dbl_lit 0.7))) 12 200 = 31"
    by (simp_all add: mul_07_40 mul_07_45 js_round_def clamp_def)
  from analyzer_font_size [OF ins(1) w1(1) h1(1)] analyzer_font_size [OF ins(2) w1(2) h1(2)]
    whole c ins w1 h1
  show ?thesis by simp
qed

subsection \<open>Text colour\<close>

lemma best_contrast_same:
  "samples_all (bgR, bgG, bgB) samples \<Longrightarrow>
   best_contrast (bgR, bgG, bgB) samples (0, s) = (0, s)"
  unfolding samples_all_def by (induction samples) auto

lemma fallback_by_luminance:
  assumes "hexToRgb bgColor = Some (r, g, b)"
    and "samples_all (r, g, b) (text_samples ctx x y w h)"
  shows "detectTextColorFast ctx x y w h bgColor =
           (if getLuminance r g b > 0.5 then ''#000000'' else ''#ffffff'')"
  using assms by (simp add: detectTextColorFast_def best_contrast_same)

text \<open>The sample points stay within the sampling radius of the centre.\<close>

lemma text_sample_point_bounds:
  assumes r: "0 \<le> min w h" and p: "text_sample_point x y w h i = (sx, sy)"
  shows "js_round (x + w / 2 - min w h / 4) \<le> sx \<and> sx \<le> js_round (x + w / 2 + min w h / 4) \<and>
         js_round (y + h / 2 - min w h / 4) \<le> sy \<and> sy \<le> js_round (y + h / 2 + min w h / 4)"
proof -
  let ?r = "min w h / 4"
  let ?a = "(real i / 5) * pi * 2"
  from r have r0: "0 \<le> ?r" by simp
  have c1: "cos ?a * ?r \<le> ?r" using mult_right_mono [OF cos_le_one [of ?a] r0] by simp
  have c2: "- ?r \<le> cos ?a * ?r" using mult_right_mono [OF cos_ge_minus_one [of ?a] r0] by simp
  have s1: "sin ?a * ?r \<le> ?r" using mult_right_mono [OF sin_le_one [of ?a] r0] by simp
  have s2: "- ?r \<le> sin ?a * ?r" using mult_right_mono [OF sin_ge_minus_one [of ?a] r0] by simp
  from p have sx: "sx = js_round (x + w / 2 + cos ?a * ?r)"
    and sy: "sy = js_round (y + h / 2 + sin ?a * ?r)"
    by (simp_all add: text_sample_point_def Let_def)
  show ?thesis unfolding sx sy using c1 c2 s1 s2
    by (intro conjI js_round_mono) linarith+
qed

text \<open>On a raster of one colour, the five samples of the rectangle \<open>(10, 10, 40, 20)\<close> have that colour.\<close>

lemma uniform_samples: "samples_all c (text_samples (uniform_raster 100 100 c) 10 10 40 20)"
proof -
  have px: "getImageData (uniform_raster 100 100 c) sx sy = c"
    if "text_sample_point 10 10 40 20 i = (sx, sy)" for i sx sy
  proof -
    from text_sample_point_bounds [OF _ that]
    have "25 \<le> sx \<and> sx \<le> 35 \<and> 15 \<le> sy \<and> sy \<le> 25" by (simp add: js_round_def)
    then show ?thesis
      by (simp add: getImageData_def uniform_raster_def)
  qed
  show ?thesis
    unfolding samples_all_def text_samples_def list_all_iff
  proof
    fix s
    assume "s \<in> set (map (\<lambda>i. case text_sample_point 10 10 40 20 i of
                                (sx, sy) \<Rightarrow> getImageData (uniform_raster 100 100 c) sx sy) [0..<5])"
    then obtain i where s: "s = (case text_sample_point 10 10 40 20 i of
                                   (sx, sy) \<Rightarrow> getImageData (uniform_raster 100 100 c) sx sy)"
      by auto
    obtain sx sy where sp: "text_sample_point 10 10 40 20 i = (sx, sy)"
      by (cases "text_sample_point 10 10 40 20 i")
    from px [OF sp] s sp show "s = c" by simp
  qed
qed

text \<open>The channels that \<open>hexToRgb\<close> returns are bytes.\<close>

lemma hex_val_range: "is_hex c \<Longrightarrow> 0 \<le> hex_val c \<and> hex_val c \<le> 15"
proof -
  assume "is_hex c"
  then have "c = CHR ''0'' \<or> c = CHR ''1'' \<or> c = CHR ''2'' \<or> c = CHR ''3'' \<or> c = CHR ''4'' \<or>
             c = CHR ''5'' \<or> c = CHR ''6'' \<or> c = CHR ''7'' \<or> c = CHR ''8'' \<or> c = CHR ''9'' \<or>
             c = CHR ''a'' \<or> c = CHR ''b'' \<or> c = CHR ''c'' \<or> c = CHR ''d'' \<or> c = CHR ''e'' \<or>
             c = CHR ''f'' \<or> c = CHR ''A'' \<or> c = CHR ''B'' \<or> c = CHR ''C'' \<or> c = CHR ''D'' \<or>
             c = CHR ''E'' \<or> c = CHR ''F''"
    by (simp add: is_hex_def)
  then show ?thesis
    by (elim disjE) (simp_all add: hex_val_def)
qed

lemma parseInt16_pair: "parseInt16 [c, d] = 16 * hex_val c + hex_val d"
  by (simp add: parseInt16_def)

lemma hexToRgb_range:
  assumes "hexToRgb s = Some (r, g, b)"
  shows "0 \<le> r \<and> r \<le> 255 \<and> 0 \<le> g \<and> g \<le> 255 \<and> 0 \<le> b \<and> b \<le> 255"
proof -
  define body where "body = (case s of [] \<Rightarrow> [] | c # cs \<Rightarrow> if c = CHR ''#'' then cs else s)"
  from assms have len: "length body = 6" and hex: "list_all is_hex body"
    and val: "(r, g, b) = (parseInt16 (take 2 body), parseInt16 (take 2 (drop 2 body)),
                           parseInt16 (take 2 (drop 4 body)))"
    by (auto simp: hexToRgb_def Let_def body_def split: if_splits)
  from len obtain c1 c2 c3 c4 c5 c6 where b: "body = [c1, c2, c3, c4, c5, c6]"
    by (auto simp: length_Suc_conv eval_nat_numeral)
  from hex b have h: "is_hex c1" "is_hex c2" "is_hex c3" "is_hex c4" "is_hex c5" "is_hex c6"
    by simp_all
  from val b have "r = 16 * hex_val c1 + hex_val c2" "g = 16 * hex_val c3 + hex_val c4"
    "b = 16 * hex_val c5 + hex_val c6"
    by (simp_all add: parseInt16_pair)
  with h [THEN hex_val_range] show ?thesis by linarith
qed

text \<open>The double luminance is the exact one up to five roundings.\<close>

lemma channel_term:
  assumes d: "1 / 10 \<le> d" and c: "0 \<le> c"
  shows "within_ulps 2 (dbl_mul (dbl_lit d) (real_of_int c)) (d * real_of_int c)"
proof -
  from d have "1 / 10000 \<le> d" by simp
  from within_ulps_round [OF within_ulps_exact, of d] this d
  have "within_ulps 1 (dbl_lit d) d" by (simp add: dbl_lit_def)
  from within_ulps_scale [OF this, of "real_of_int c"] c
  have s: "within_ulps 1 (dbl_lit d * real_of_int c) (d * real_of_int c)" by simp
  have "c = 0 \<or> 1 \<le> c" using c by linarith
  then have "d * real_of_int c = 0 \<or> 1 / 10000 \<le> d * real_of_int c"
  proof
    assume "c = 0" then show ?thesis by simp
  next
    assume "1 \<le> c"
    then have "d * 1 \<le> d * real_of_int c" using d by (intro mult_left_mono) simp_all
    then have "d \<le> d * real_of_int c" by simp
    with d show ?thesis by (intro disjI2) linarith
  qed
  from within_ulps_round [OF s _ this] show ?thesis by (simp add: dbl_mul_def eval_nat_numeral)
qed

lemma luminance_close:
  assumes r: "0 \<le> r" and g: "0 \<le> g" and b: "0 \<le> b"
  shows "within_ulps 5 (getLuminance r g b)
           ((0.299 * real_of_int r + 0.587 * real_of_int g + 0.114 * real_of_int b) / 255)"
proof -
  let ?R = "0.299 * real_of_int r" and ?G = "0.587 * real_of_int g"
    and ?B = "0.114 * real_of_int b"
  have tr: "within_ulps 2 (dbl_mul (dbl_lit 0.299) (real_of_int r)) ?R"
    and tg: "within_ulps 2 (dbl_mul (dbl_lit 0.587) (real_of_int g)) ?G"
    and tb: "within_ulps 2 (dbl_mul (dbl_lit 0.114) (real_of_int b)) ?B"
    using r g b by (intro channel_term; simp)+
  have int0: "c = 0 \<or> 1 \<le> c" if "0 \<le> c" for c :: int using that by linarith
  have big: "?R + ?G = 0 \<or> 1 / 10000 \<le> ?R + ?G"
    using int0 [OF r] int0 [OF g] r g by auto
  have big2: "?R + ?G + ?B = 0 \<or> 1 / 10000 \<le> ?R + ?G + ?B"
    using int0 [OF r] int0 [OF g] int0 [OF b] r g b by auto
  have big3: "(?R + ?G + ?B) / 255 = 0 \<or> 1 / 10000 \<le> (?R + ?G + ?B) / 255"
    using int0 [OF r] int0 [OF g] int0 [OF b] r g b by auto
  from within_ulps_round [OF within_ulps_add [OF tr tg] _ big]
  have s1: "within_ulps 3 (dbl_add (dbl_mul (dbl_lit 0.299) (real_of_int r))
                                   (dbl_mul (dbl_lit 0.587) (real_of_int g))) (?R + ?G)"
    by (simp add: dbl_add_def eval_nat_numeral)
  from within_ulps_mono [OF tb, of 3]
  have tb3: "within_ulps 3 (dbl_mul (dbl_lit 0.114) (real_of_int b)) ?B"
    by simp
  from within_ulps_round [OF within_ulps_add [OF s1 tb3] _ big2]
  have s2: "within_ulps 4 (dbl_add (dbl_add (dbl_mul (dbl_lit 0.299) (real_of_int r))
                                   (dbl_mul (dbl_lit 0.587) (real_of_int g)))
                             (dbl_mul (dbl_lit 0.114) (real_of_int b))) (?R + ?G + ?B)"
    by (simp add: dbl_add_def eval_nat_numeral)
  from within_ulps_scale [OF s2, of "1 / 255"]
  have q: "within_ulps 4 (dbl_add (dbl_add (dbl_mul (dbl_lit 0.299) (real_of_int r))
                                   (dbl_mul (dbl_lit 0.587) (real_of_int g)))
                             (dbl_mul (dbl_lit 0.114) (real_of_int b)) / 255)
             ((?R + ?G + ?B) / 255)"
    by simp
  from within_ulps_round [OF q _ big3]
  show ?thesis by (simp add: getLuminance_def dbl_div_def eval_nat_numeral)
qed

text \<open>Away from the exact value one half, the double and the exact luminance compare alike with 0.5.\<close>

lemma luminance_decides:
  assumes r: "0 \<le> r" "r \<le> 255" and g: "0 \<le> g" "g \<le> 255" and b: "0 \<le> b" "b \<le> 255"
    and ne: "299 * r + 587 * g + 114 * b \<noteq> 127500"
  shows "getLuminance r g b > 0.5 \<longleftrightarrow>
         (0.299 * real_of_int r + 0.587 * real_of_int g + 0.114 * real_of_int b) / 255 > 0.5"
proof -
  define L where
    "L = (0.299 * real_of_int r + 0.587 * real_of_int g + 0.114 * real_of_int b) / 255"
  define S where "S = 299 * r + 587 * g + 114 * b"
  have LS: "L = real_of_int S / 255000" by (simp add: L_def S_def)
  from luminance_close [OF r(1) g(1) b(1)]
  have lo: "L * (1 - 1 / 2 ^ 53) ^ 5 \<le> getLuminance r g b"
    and hi: "getLuminance r g b \<le> L * (1 + 1 / 2 ^ 53) ^ 5" and L0: "0 \<le> L"
    by (simp_all add: within_ulps_def L_def)
  have L1: "L \<le> 1" using r g b by (simp add: L_def)
  define e :: real where "e = 6 / 2 ^ 53"
  have e: "e < 1 / 510000" by (simp add: e_def)
  have "1 - e \<le> (1 - 1 / 2 ^ 53 :: real) ^ 5" by (simp add: e_def power_divide field_simps)
  from mult_left_mono [OF this L0] lo have lo': "L - L * e \<le> getLuminance r g b"
    by (simp add: algebra_simps)
  have "(1 + 1 / 2 ^ 53 :: real) ^ 5 \<le> 1 + e" by (simp add: e_def power_divide field_simps)
  from mult_left_mono [OF this L0] hi have hi': "getLuminance r g b \<le> L + L * e"
    by (simp add: algebra_simps)
  have Le: "L * e \<le> e" using L1 e_def by (simp add: mult_left_le_one_le)
  from ne have "S \<le> 127499 \<or> 127501 \<le> S" unfolding S_def by linarith
  then show ?thesis
  proof
    assume "S \<le> 127499"
    then have "real_of_int S \<le> 127499" by linarith
    then have "L \<le> 127499 / 255000" by (simp add: LS)
    with hi' Le e show ?thesis unfolding L_def [symmetric] by simp
  next
    assume "127501 \<le> S"
    then have "127501 \<le> real_of_int S" by linarith
    then have "127501 / 255000 \<le> L" by (simp add: LS)
    with lo' Le e show ?thesis unfolding L_def [symmetric] by simp
  qed
qed

text \<open>The double luminance of the colour \<open>#da3af8\<close> is \<open>1/2 + 2 ^ -53\<close>.\<close>

lemma purple_luminance: "getLuminance 218 58 248 = 4503599627370497 / 9007199254740992"
proof -
  have a: "dbl_mul (dbl_lit 0.299) 218 = 4586775482988495 / 70368744177664"
    unfolding dbl_mul_def lit_0299
    by (subst round_double_eval [where k = 6]) (simp_all add: pow2_def round_half_even_def)
  have b: "dbl_mul (dbl_lit 0.587) 58 = 4791548528545497 / 140737488355328"
    unfolding dbl_mul_def lit_0587
    by (subst round_double_eval [where k = 5]) (simp_all add: pow2_def round_half_even_def)
  have c: "dbl_mul (dbl_lit 0.114) 248 = 7957860541563667 / 281474976710656"
    unfolding dbl_mul_def lit_0114
    by (subst round_double_eval [where k = 4]) (simp_all add: pow2_def round_half_even_def)
  have s1: "dbl_add (4586775482988495 / 70368744177664) (4791548528545497 / 140737488355328)
              = 1745637436815311 / 17592186044416"
    unfolding dbl_add_def
    by (subst round_double_eval [where k = 6]) (simp_all add: pow2_def round_half_even_def)
  have s2: "dbl_add (1745637436815311 / 17592186044416) (7957860541563667 / 281474976710656)
              = 8972014882652161 / 70368744177664"
    unfolding dbl_add_def
    by (subst round_double_eval [where k = 6]) (simp_all add: pow2_def round_half_even_def)
  have q: "dbl_div (8972014882652161 / 70368744177664) 255
             = 4503599627370497 / 9007199254740992"
    unfolding dbl_div_def
    by (subst round_double_eval [where k = "-1"]) (simp_all add: pow2_def round_half_even_def)
  show ?thesis
    unfolding getLuminance_def of_int_numeral a b c s1 s2 q ..
qed

text \<open>
  Claim C6, as stated, fails at one colour. On a raster filled with \<open>#da3af8\<close>, which is
  \<open>(218, 58, 248)\<close>, the five samples equal the background, and the luminance
  \<open>(0.299 * 218 + 0.587 * 58 + 0.114 * 248) / 255\<close> is exactly 0.5, which does not exceed
  0.5, so the claim gives \<open>#ffffff\<close>. The code computes the luminance in double
  arithmetic, obtains \<open>0.5 + 2 ^ -53\<close>, and returns \<open>#000000\<close>.
\<close>

theorem text_color_fallback_counterexample:
  "hexToRgb ''#da3af8'' = Some (218, 58, 248) \<and>
   samples_all (218, 58, 248) (text_samples purple_raster 10 10 40 20) \<and>
   (0.299 * 218 + 0.587 * 58 + 0.114 * 248) / 255 = (1 / 2 :: real) \<and>
   detectTextColorFast purple_raster 10 10 40 20 ''#da3af8'' = ''#000000''"
proof -
  have hex: "hexToRgb ''#da3af8'' = Some (218, 58, 248)"
    by (simp add: hexToRgb_def is_hex_def parseInt16_def hex_val_def)
  have same: "samples_all (218, 58, 248) (text_samples purple_raster 10 10 40 20)"
    unfolding purple_raster_def by (rule uniform_samples)
  have exact: "(0.299 * 218 + 0.587 * 58 + 0.114 * 248) / 255 = (1 / 2 :: real)"
    by simp
  have "getLuminance 218 58 248 > 0.5" by (simp add: purple_luminance)
  with fallback_by_luminance [OF hex same]
  have "detectTextColorFast purple_raster 10 10 40 20 ''#da3af8'' = ''#000000''" by simp
  with hex same exact show ?thesis by simp
qed

text \<open>
  Claim C6, amended. When the background colour parses to \<open>(r, g, b)\<close> and each of the
  five circle samples is \<open>(r, g, b)\<close>, the detector returns \<open>#000000\<close> if the luminance
  \<open>(0.299 r + 0.587 g + 0.114 b) / 255\<close>, computed in double arithmetic from left to right
  as the code does, exceeds 0.5, and \<open>#ffffff\<close> otherwise. Unless
  \<open>299 r + 587 g + 114 b = 127500\<close> (the exact luminance is one half), this is the
  comparison of the exact luminance with 0.5.
\<close>

theorem text_color_fallback:
  assumes bg: "hexToRgb bgColor = Some (r, g, b)"
    and same: "samples_all (r, g, b) (text_samples ctx x y w h)"
  shows "detectTextColorFast ctx x y w h bgColor =
           (if dbl_div (dbl_add (dbl_add (dbl_mul (dbl_lit 0.299) (real_of_int r))
                                         (dbl_mul (dbl_lit 0.587) (real_of_int g)))
                                (dbl_mul (dbl_lit 0.114) (real_of_int b))) 255 > 0.5
            then ''#000000'' else ''#ffffff'') \<and>
         (299 * r + 587 * g + 114 * b \<noteq> 127500 \<longrightarrow>
            detectTextColorFast ctx x y w h bgColor =
              (if (0.299 * real_of_int r + 0.587 * real_of_int g + 0.114 * real_of_int b) / 255
                    > 0.5
               then ''#000000'' else ''#ffffff''))"
proof
  show "detectTextColorFast ctx x y w h bgColor =
           (if dbl_div (dbl_add (dbl_add (dbl_mul (dbl_lit 0.299) (real_of_int r))
                                         (dbl_mul (dbl_lit 0.587) (real_of_int g)))
                                (dbl_mul (dbl_lit 0.114) (real_of_int b))) 255 > 0.5
            then ''#000000'' else ''#ffffff'')"
    using fallback_by_luminance [OF bg same] by (simp only: getLuminance_def)
next
  show "299 * r + 587 * g + 114 * b \<noteq> 127500 \<longrightarrow>
            detectTextColorFast ctx x y w h bgColor =
              (if (0.299 * real_of_int r + 0.587 * real_of_int g + 0.114 * real_of_int b) / 255
                    > 0.5
               then ''#000000'' else ''#ffffff'')"
  proof
    assume ne: "299 * r + 587 * g + 114 * b \<noteq> 127500"
    from hexToRgb_range [OF bg]
    have rng: "0 \<le> r" "r \<le> 255" "0 \<le> g" "g \<le> 255" "0 \<le> b" "b \<le> 255"
      by simp_all
    from luminance_decides [OF rng ne] fallback_by_luminance [OF bg same]
    show "detectTextColorFast ctx x y w h bgColor =
              (if (0.299 * real_of_int r + 0.587 * real_of_int g + 0.114 * real_of_int b) / 255
                    > 0.5
               then ''#000000'' else ''#ffffff'')"
      by (simp only:)
  qed
qed

text \<open>
  The theorem at a white and at a black raster with the rectangle \<open>(10, 10, 40, 20)\<close>: the
  text colour is black on white and white on black.
\<close>

theorem text_color_fallback_witness:
  "hexToRgb ''#ffffff'' = Some (255, 255, 255) \<and>
   samples_all (255, 255, 255) (text_samples white_raster 10 10 40 20) \<and>
   detectTextColorFast white_raster 10 10 40 20 ''#ffffff'' = ''#000000'' \<and>
   hexToRgb ''#000000'' = Some (0, 0, 0) \<and>
   samples_all (0, 0, 0) (text_samples (uniform_raster 100 100 (0, 0, 0)) 10 10 40 20) \<and>
   detectTextColorFast (uniform_raster 100 100 (0, 0, 0)) 10 10 40 20 ''#000000'' = ''#ffffff''"
proof -
  have hex: "hexToRgb ''#ffffff'' = Some (255, 255, 255)" "hexToRgb ''#000000'' = Some (0, 0, 0)"
    by (simp_all add: hexToRgb_def is_hex_def parseInt16_def hex_val_def)
  have same: "samples_all (255, 255, 255) (text_samples white_raster 10 10 40 20)"
    unfolding white_raster_def by (rule uniform_samples)
  have same0: "samples_all (0, 0, 0) (text_samples (uniform_raster 100 100 (0, 0, 0)) 10 10 40 20)"
    by (rule uniform_samples)
  have w: "detectTextColorFast white_raster 10 10 40 20 ''#ffffff'' = ''#000000''"
    using text_color_fallback [OF hex(1) same, THEN conjunct2] by simp
  have k: "detectTextColorFast (uniform_raster 100 100 (0, 0, 0)) 10 10 40 20 ''#000000''
             = ''#ffffff''"
    using text_color_fallback [OF hex(2) same0, THEN conjunct2] by simp
  from w k hex same same0 show ?thesis by simp
qed

section \<open>Hit test and region creation: theorems\<close>

text \<open>
  Claim C7. For every region of positive width and height, whatever its rotation, the
  hit test of the region succeeds at the centre of its rectangle, so the selection pass
  over a scene that holds the region finds a region there.
\<close>

theorem center_hit:
  assumes "0 < sel_w sel" and "0 < sel_h sel"
  shows "selection_hit (sel_x sel + sel_w sel / 2) (sel_y sel + sel_h sel / 2) sel \<and>
         (sel \<in> set sels \<longrightarrow>
            clickedSelection (sel_x sel + sel_w sel / 2) (sel_y sel + sel_h sel / 2) sels \<noteq> None)"
proof -
  from assms have hit: "selection_hit (sel_x sel + sel_w sel / 2) (sel_y sel + sel_h sel / 2) sel"
    by (simp add: selection_hit_def Let_def)
  then show ?thesis by (auto simp: clickedSelection_def find_None_iff)
qed

text \<open>The theorem at a text region turned by 37 degrees, whose centre is \<open>(60, 40)\<close>.\<close>

theorem center_hit_witness:
  "0 < sel_w tilted_region \<and> 0 < sel_h tilted_region \<and>
   hit_rotation tilted_region = 37 \<and> selection_hit 60 40 tilted_region \<and>
   clickedSelection 60 40 [tilted_region] \<noteq> None"
proof -
  have f: "sel_x tilted_region = 10" "sel_y tilted_region = 20"
    "sel_w tilted_region = 100" "sel_h tilted_region = 40"
    by (simp_all add: tilted_region_def newSelection_def)
  have rot: "hit_rotation tilted_region = 37"
    by (simp add: hit_rotation_def tilted_region_def newSelection_def)
  from center_hit [of tilted_region "[tilted_region]"] rot show ?thesis by (simp add: f)
qed

text \<open>
  Claim C4. A pointer-up adds a region only when it ends a drawing drag whose absolute
  width and height both exceed 10 while fewer than 10 regions exist; then exactly one
  region is added and one history entry is pushed. Otherwise the scene, the history and
  the cursor are unchanged. With 10 regions the count stays 10 and nothing is pushed.
\<close>

theorem region_admission:
  "(length (selections (onMouseUp now canvas p st)) > length (selections st) \<longrightarrow> admitted p st) \<and>
   (admitted p st \<longrightarrow>
      length (selections (onMouseUp now canvas p st)) = length (selections st) + 1 \<and>
      history (onMouseUp now canvas p st)
        = js_slice0 (history st) (historyIndex st + 1) @ [scene_of st]) \<and>
   (\<not> admitted p st \<longrightarrow>
      scene_of (onMouseUp now canvas p st) = scene_of st \<and>
      history (onMouseUp now canvas p st) = history st \<and>
      historyIndex (onMouseUp now canvas p st) = historyIndex st) \<and>
   (length (selections st) = 10 \<longrightarrow>
      length (selections (onMouseUp now canvas p st)) = 10 \<and>
      history (onMouseUp now canvas p st) = history st)"
  by (auto simp: onMouseUp_def admitted_def drawing_gesture_def drag_width_def drag_height_def
        MAX_SELECTIONS_def Let_def scene_of_def addToHistory_def)

text \<open>
  The theorem at three drags from \<open>(10, 10)\<close>: one of 50 by 30 on an empty scene, which is
  admitted; one of 5 by 30, which is too narrow; and one of 50 by 30 on a scene of ten
  regions.
\<close>

theorem region_admission_witness:
  "admitted (60, 40) drawing_state \<and>
   length (selections (onMouseUp 1700000000000 (Some white_raster) (60, 40) drawing_state)) = 1 \<and>
   length (history (onMouseUp 1700000000000 (Some white_raster) (60, 40) drawing_state)) = 1 \<and>
   \<not> admitted (15, 40) drawing_state \<and>
   selections (onMouseUp 1700000000000 (Some white_raster) (15, 40) drawing_state) = [] \<and>
   history (onMouseUp 1700000000000 (Some white_raster) (15, 40) drawing_state) = [] \<and>
   \<not> admitted (60, 40) full_state \<and>
   length (selections (onMouseUp 1700000000000 (Some white_raster) (60, 40) full_state)) = 10 \<and>
   history (onMouseUp 1700000000000 (Some white_raster) (60, 40) full_state) = []"
proof -
  have a1: "admitted (60, 40) drawing_state"
    by (simp add: admitted_def drawing_gesture_def drag_width_def drag_height_def
          drawing_state_def fresh_state_def)
  have a2: "\<not> admitted (15, 40) drawing_state"
    by (simp add: admitted_def drawing_gesture_def drag_width_def drag_height_def
          drawing_state_def fresh_state_def)
  have a3: "\<not> admitted (60, 40) full_state"
    by (simp add: admitted_def full_state_def)
  have d: "selections drawing_state = []" "history drawing_state = []"
    "historyIndex drawing_state = -1"
    by (simp_all add: drawing_state_def fresh_state_def)
  have f: "length (selections full_state) = 10" "history full_state = []"
    by (simp_all add: full_state_def drawing_state_def fresh_state_def)
  from region_admission [where now = 1700000000000 and canvas = "Some white_raster"
                            and p = "(60, 40)" and st = drawing_state]
       region_admission [where now = 1700000000000 and canvas = "Some white_raster"
                            and p = "(15, 40)" and st = drawing_state]
       region_admission [where now = 1700000000000 and canvas = "Some white_raster"
                            and p = "(60, 40)" and st = full_state]
       a1 a2 a3
  show ?thesis by (simp add: d f scene_of_def js_slice0_def)
qed

section \<open>Export: theorems\<close>


lemma restore_ai_no_prompt:
  "str_or (repl (sel_id sel)) [] = [] \<Longrightarrow> restore_ai env repl sel cv = Some cv"
  by (simp add: restore_ai_def)




lemma no_prompts_skip_all:
  "list_all (\<lambda>s. str_or (repl (sel_id s)) [] = []) sels \<Longrightarrow>
   restore_ai_all env repl sels cv = Some cv"
  by (induction sels) (simp_all add: restore_ai_no_prompt)
















lemma export_answers:
  "handleRestore plain_measure env_answers (Some (100, 100)) (Some white_raster)
     no_images no_images ai_scene
   = Exported \<lparr> cv_width = 100, cv_height = 100, cv_image = white_raster,
                cv_ops = [DrawImage ''data:image/png;base64,QUJD'' 10 10 40 30] \<rparr>"
  by (simp add: handleRestore_def Let_def ai_scene_def ai_region_def newSelection_def
        env_answers_def image_answer_def restore_ai_def resolve_key_def falsy_key_def str_or_def
        has_data_def draw_def restore_overlays_def)

lemma export_throws:
  "handleRestore plain_measure env_throws (Some (100, 100)) (Some white_raster)
     no_images no_images ai_scene
   = Exported \<lparr> cv_width = 100, cv_height = 100, cv_image = white_raster, cv_ops = [] \<rparr>"
  by (simp add: handleRestore_def Let_def ai_scene_def ai_region_def newSelection_def
        env_throws_def restore_ai_def resolve_key_def falsy_key_def str_or_def
        has_data_def draw_def restore_overlays_def)

text \<open>
  Claim C1, as stated, fails: with the same raster, the same canvas size, the same image
  caches and the same scene of one ai-image region with the prompt \<open>a cat\<close>, a run in
  which the collaborator answers with an image draws that image, and a run in which the
  collaborator throws draws nothing.
\<close>

theorem export_twice_counterexample:
  "handleRestore plain_measure env_answers (Some (100, 100)) (Some white_raster)
     no_images no_images ai_scene
   \<noteq> handleRestore plain_measure env_throws (Some (100, 100)) (Some white_raster)
       no_images no_images ai_scene"
  by (simp add: export_answers export_throws)

text \<open>
  Claim C1, amended. For a fixed raster, canvas size, text measurement, image caches and
  scene in which no ai-image region has a prompt, the export is the same whatever the
  key, the collaborator and the loading of its images are: two runs give the same
  canvas. (With a prompt, the result also depends on the key and on what the
  collaborator answers.)
\<close>

theorem export_without_prompts:
  assumes "no_ai_prompts scene"
  shows "handleRestore m env1 canvasRef imageData replImgs stkImgs scene =
         handleRestore m env2 canvasRef imageData replImgs stkImgs scene"
  using assms
  by (simp add: handleRestore_def Let_def no_ai_prompts_def no_prompts_skip_all
        split: option.splits prod.splits)

text \<open>
  The theorem at a scene with a text region, an ai-image region without a prompt and a
  sticker, for the answering and the throwing collaborator.
\<close>

theorem export_without_prompts_witness:
  "no_ai_prompts quiet_scene \<and>
   handleRestore plain_measure env_answers (Some (100, 100)) (Some white_raster)
     no_images sticker_cache quiet_scene
   = handleRestore plain_measure env_throws (Some (100, 100)) (Some white_raster)
       no_images sticker_cache quiet_scene"
proof -
  have q: "no_ai_prompts quiet_scene"
    by (simp add: no_ai_prompts_def quiet_scene_def ai_region_def text_region_def
          newSelection_def str_or_def)
  from export_without_prompts [OF q] q show ?thesis by simp
qed

end
